theory Spec2Isabelle
  imports Complex_Main
begin

section \<open>Python values used by the price-history updater\<close>

text \<open>
  The development embeds \<^verbatim>\<open>parse_number\<close> and \<^verbatim>\<open>upsert_historico_selectivo\<close>
  of \<^verbatim>\<open>main.py\<close>. A Python float is a real number or one of the three special
  values; binary64 rounding is not modelled, nor the overflow and underflow of a decimal
  text, so a finite float is the exact value of its decimal text. The conversion of an int
  to a float raises beyond the range of a double, as in Python. A string is a list of
  characters, each character standing for a code point below 256.
\<close>

datatype pyfloat = Fin real | PInf | NInf | NaN

datatype number = PInt int | PFloat pyfloat

datatype raw = RNone | RNum number | RStr string

datatype exn = ValueError | OverflowError

text \<open>Python's \<^verbatim>\<open><\<close> on floats: every comparison with nan is false.\<close>

fun float_less :: "pyfloat \<Rightarrow> pyfloat \<Rightarrow> bool" where
  "float_less NaN _ = False"
| "float_less _ NaN = False"
| "float_less (Fin a) (Fin b) = (a < b)"
| "float_less (Fin a) PInf = True"
| "float_less (Fin a) NInf = False"
| "float_less PInf _ = False"
| "float_less NInf NInf = False"
| "float_less NInf _ = True"

text \<open>\<^verbatim>\<open>int(x)\<close> of a float truncates toward zero and raises on inf and nan.\<close>

definition trunc :: "real \<Rightarrow> int" where
  "trunc r = (if r < 0 then \<lceil>r\<rceil> else \<lfloor>r\<rfloor>)"

fun int_of_float :: "pyfloat \<Rightarrow> exn + int" where
  "int_of_float (Fin r) = Inr (trunc r)"
| "int_of_float PInf = Inl OverflowError"
| "int_of_float NInf = Inl OverflowError"
| "int_of_float NaN = Inl ValueError"

fun int_of_number :: "number \<Rightarrow> exn + int" where
  "int_of_number (PInt i) = Inr i"
| "int_of_number (PFloat f) = int_of_float f"

text \<open>
  The value of a number on the scale of the floats, for the comparisons \<^verbatim>\<open><\<close> and
  \<^verbatim>\<open>==\<close>: Python compares an int with a float by their exact values and converts nothing.
\<close>

fun float_of_number :: "number \<Rightarrow> pyfloat" where
  "float_of_number (PInt i) = Fin (of_int i)"
| "float_of_number (PFloat f) = f"

fun py_eq :: "number \<Rightarrow> number \<Rightarrow> bool" where
  "py_eq (PInt i) (PInt j) = (i = j)"
| "py_eq a b = (float_of_number a = float_of_number b \<and> float_of_number a \<noteq> NaN)"

text \<open>
  The call \<^verbatim>\<open>float(x)\<close> on a number. An int is converted with rounding to nearest, and
  the call raises \<^verbatim>\<open>OverflowError\<close> when the result would pass the greatest double
  \<open>2 ^ 1024 - 2 ^ 971\<close>, that is from \<open>2 ^ 1024 - 2 ^ 970\<close> on.
\<close>

definition overflows :: "int \<Rightarrow> bool" where
  "overflows i = (2 ^ 1024 - 2 ^ 970 \<le> \<bar>i\<bar>)"

fun float_cast :: "number \<Rightarrow> exn + pyfloat" where
  "float_cast (PInt i) = (if overflows i then Inl OverflowError else Inr (Fin (of_int i)))"
| "float_cast (PFloat f) = Inr f"

section \<open>String primitives\<close>

definition is_space :: "char \<Rightarrow> bool" where
  "is_space c = (c \<in> set [CHR 0x20, CHR 0x09, CHR 0x0A, CHR 0x0B, CHR 0x0C, CHR 0x0D,
                            CHR 0x1C, CHR 0x1D, CHR 0x1E, CHR 0x1F, CHR 0x85, CHR 0xA0])"

definition strip :: "string \<Rightarrow> string" where
  "strip s = rev (dropWhile is_space (rev (dropWhile is_space s)))"

text \<open>
  The whitespace \<^verbatim>\<open>float()\<close> and \<^verbatim>\<open>int()\<close> skip around their argument: that of
  \<^verbatim>\<open>str.strip\<close> without the four separators \<^verbatim>\<open>0x1C\<close> to \<^verbatim>\<open>0x1F\<close>.
\<close>

definition is_number_space :: "char \<Rightarrow> bool" where
  "is_number_space c = (c \<in> set [CHR 0x20, CHR 0x09, CHR 0x0A, CHR 0x0B, CHR 0x0C, CHR 0x0D,
                                   CHR 0x85, CHR 0xA0])"

definition number_strip :: "string \<Rightarrow> string" where
  "number_strip s = rev (dropWhile is_number_space (rev (dropWhile is_number_space s)))"

definition lower_char :: "char \<Rightarrow> char" where
  "lower_char c =
     (case map_of (zip ''ABCDEFGHIJKLMNOPQRSTUVWXYZ'' ''abcdefghijklmnopqrstuvwxyz'') c of
        Some d \<Rightarrow> d
      | None \<Rightarrow> c)"

definition lower :: "string \<Rightarrow> string" where
  "lower s = map lower_char s"

text \<open>\<^verbatim>\<open>s.rfind(c)\<close>: the highest index of \<open>c\<close>, or \<open>-1\<close>.\<close>

definition rfind :: "string \<Rightarrow> char \<Rightarrow> int" where
  "rfind s c =
     (if c \<in> set s then int (length s) - 1 - int (length (takeWhile (\<lambda>x. x \<noteq> c) (rev s)))
      else - 1)"

text \<open>\<^verbatim>\<open>s.replace(c, r)\<close> for a one-character pattern \<open>c\<close>.\<close>

definition replace :: "string \<Rightarrow> char \<Rightarrow> string \<Rightarrow> string" where
  "replace s c r = concat (map (\<lambda>x. if x = c then r else [x]) s)"

section \<open>The text accepted by \<^verbatim>\<open>float()\<close>\<close>

text \<open>
  Python's grammar for the argument of \<^verbatim>\<open>float\<close>, after the whitespace around it
  is removed:
  \<^verbatim>\<open>
  floatvalue  ::= [sign] (floatnumber | "inf" | "infinity" | "nan")   -- letters in any case
  floatnumber ::= number [("e" | "E") [sign] digitpart]
  number      ::= [digitpart] "." digitpart | digitpart ["."]
  digitpart   ::= digit (["_"] digit)*
  \<close>
\<close>

definition is_digit :: "char \<Rightarrow> bool" where
  "is_digit c = (c \<in> set ''0123456789'')"

definition digit_val :: "char \<Rightarrow> nat" where
  "digit_val c = of_char c - 48"

text \<open>The digits of the longest \<^verbatim>\<open>(["_"] digit)*\<close> prefix, and the rest.\<close>

fun digits_tail :: "string \<Rightarrow> string \<times> string" where
  "digits_tail [] = ([], [])"
| "digits_tail [c] = (if is_digit c then ([c], []) else ([], [c]))"
| "digits_tail (c # d # cs) =
     (if is_digit c then (case digits_tail (d # cs) of (ds, r) \<Rightarrow> (c # ds, r))
      else if c = CHR ''_'' \<and> is_digit d then (case digits_tail cs of (ds, r) \<Rightarrow> (d # ds, r))
      else ([], c # d # cs))"

definition digitpart :: "string \<Rightarrow> string \<times> string" where
  "digitpart s = (case s of [] \<Rightarrow> ([], []) | c # cs \<Rightarrow> if is_digit c then digits_tail s else ([], s))"

definition nat_of_digits :: "string \<Rightarrow> nat" where
  "nat_of_digits ds = foldl (\<lambda>a c. 10 * a + digit_val c) 0 ds"

definition scale10 :: "real \<Rightarrow> int \<Rightarrow> real" where
  "scale10 x k = (if 0 \<le> k then x * 10 ^ nat k else x / 10 ^ nat (- k))"

text \<open>The optional sign in front of a number or an exponent.\<close>

fun sign_split :: "string \<Rightarrow> bool \<times> string" where
  "sign_split (c # cs) =
     (if c = CHR ''-'' then (True, cs) else if c = CHR ''+'' then (False, cs) else (False, c # cs))"
| "sign_split [] = (False, [])"

text \<open>The exponent part: empty, or \<^verbatim>\<open>e\<close>, a sign and a digit part up to the end.\<close>

definition exponent :: "string \<Rightarrow> int option" where
  "exponent s =
     (case s of
        [] \<Rightarrow> Some 0
      | c # cs \<Rightarrow>
          if c = CHR ''e'' \<or> c = CHR ''E'' then
            (case sign_split cs of (neg, t) \<Rightarrow>
               (case digitpart t of (ds, r) \<Rightarrow>
                  if ds = [] \<or> r \<noteq> [] then None
                  else Some (if neg then - int (nat_of_digits ds) else int (nat_of_digits ds))))
          else None)"

definition floatnumber :: "string \<Rightarrow> real option" where
  "floatnumber s =
     (case digitpart s of (ip, r1) \<Rightarrow>
        (case (case r1 of
                 c # cs \<Rightarrow> if c = CHR ''.'' then digitpart cs else ([], r1)
               | [] \<Rightarrow> ([], r1)) of (fp, r2) \<Rightarrow>
           if ip = [] \<and> fp = [] then None
           else (case exponent r2 of
                   None \<Rightarrow> None
                 | Some e \<Rightarrow>
                     Some (scale10 (of_nat (nat_of_digits (ip @ fp))) (e - int (length fp))))))"

definition py_float :: "string \<Rightarrow> pyfloat option" where
  "py_float s =
     (case sign_split (number_strip s) of (neg, body) \<Rightarrow>
        if lower body = ''inf'' \<or> lower body = ''infinity'' then Some (if neg then NInf else PInf)
        else if lower body = ''nan'' then Some NaN
        else (case floatnumber body of
                None \<Rightarrow> None
              | Some r \<Rightarrow> Some (Fin (if neg then - r else r))))"

section \<open>\<^verbatim>\<open>parse_number\<close> (\<^verbatim>\<open>main.py\<close>)\<close>

text \<open>
  The separator rules of the \<^verbatim>\<open>try\<close> block, up to the call of \<^verbatim>\<open>float\<close>: the
  argument is the stripped text.
\<close>

definition disambiguate :: "string \<Rightarrow> string" where
  "disambiguate s =
     (let coma_pos = rfind s CHR '',''; punto_pos = rfind s CHR ''.'' in
      if CHR '','' \<in> set s \<and> CHR ''.'' \<notin> set s then replace s CHR '','' ''''
      else if CHR ''.'' \<in> set s \<and> CHR '','' \<notin> set s then
        (if count_list s CHR ''.'' > 1 then replace s CHR ''.'' ''''
         else if punto_pos > 0 then
           (let decimales_despues = int (length s) - punto_pos - 1 in
            if decimales_despues > 3 then replace s CHR ''.'' '''' else s)
         else s)
      else if CHR '','' \<in> set s \<and> CHR ''.'' \<in> set s then
        (if coma_pos > punto_pos then replace (replace s CHR ''.'' '''') CHR '','' ''.''
         else replace s CHR '','' '''')
      else s)"

text \<open>
  The part of the \<^verbatim>\<open>try\<close> block after the parse: the range check and the cast. An
  exception of \<^verbatim>\<open>int(num)\<close> is caught by the handler, which returns \<^verbatim>\<open>None\<close>.
\<close>

definition finish :: "pyfloat \<Rightarrow> bool \<Rightarrow> number option" where
  "finish num is_int =
     (if float_less num (Fin 0) then None
      else if is_int then (case int_of_float num of Inl e \<Rightarrow> None | Inr i \<Rightarrow> Some (PInt i))
      else Some (PFloat num))"

text \<open>
  From \<^verbatim>\<open>num = float(s)\<close> to the end of the \<^verbatim>\<open>try\<close> statement: the handler returns
  \<^verbatim>\<open>None\<close> for every exception.
\<close>

definition to_number :: "string \<Rightarrow> bool \<Rightarrow> number option" where
  "to_number s is_int = (case py_float s of None \<Rightarrow> None | Some num \<Rightarrow> finish num is_int)"

definition parse_number :: "raw \<Rightarrow> bool \<Rightarrow> exn + number option" where
  "parse_number val is_int =
     (case val of
        RNone \<Rightarrow> Inr None
      | RNum n \<Rightarrow>
          if is_int then (case int_of_number n of Inl e \<Rightarrow> Inl e | Inr i \<Rightarrow> Inr (Some (PInt i)))
          else (case float_cast n of Inl e \<Rightarrow> Inl e | Inr f \<Rightarrow> Inr (Some (PFloat f)))
      | RStr v \<Rightarrow>
          (let s = strip v in
           if s = '''' \<or> s = ''-'' then Inr None
           else Inr (to_number (disambiguate s) is_int)))"

section \<open>The older \<^verbatim>\<open>parse_number\<close> (\<^verbatim>\<open>main..py\<close>)\<close>

text \<open>
  The file \<^verbatim>\<open>main..py\<close> holds an earlier version of the script. Its \<^verbatim>\<open>parse_number\<close>
  has other separator rules and no range check, and its handler removes every comma and
  dot from the text it was about to parse and parses again, with \<^verbatim>\<open>int\<close> or \<^verbatim>\<open>float\<close>.
\<close>

text \<open>The text accepted by \<^verbatim>\<open>int()\<close>: a sign and a digit part.\<close>

definition py_int :: "string \<Rightarrow> int option" where
  "py_int s =
     (case sign_split (number_strip s) of (neg, body) \<Rightarrow>
        (case digitpart body of (ds, r) \<Rightarrow>
           if ds = [] \<or> r \<noteq> [] then None
           else Some (if neg then - int (nat_of_digits ds) else int (nat_of_digits ds))))"

definition legacy_separators :: "string \<Rightarrow> string" where
  "legacy_separators s =
     (if CHR '','' \<in> set s \<and> CHR ''.'' \<in> set s
        then replace (replace s CHR ''.'' '''') CHR '','' ''.''
      else if CHR '','' \<in> set s \<and> CHR ''.'' \<notin> set s then replace s CHR '','' ''.''
      else s)"

definition legacy_fallback :: "string \<Rightarrow> bool \<Rightarrow> number option" where
  "legacy_fallback s is_int =
     (let s2 = replace (replace s CHR '','' '''') CHR ''.'' '''' in
      if is_int then (case py_int s2 of None \<Rightarrow> None | Some i \<Rightarrow> Some (PInt i))
      else (case py_float s2 of None \<Rightarrow> None | Some f \<Rightarrow> Some (PFloat f)))"

definition legacy_parse_number :: "raw \<Rightarrow> bool \<Rightarrow> exn + number option" where
  "legacy_parse_number val is_int =
     (case val of
        RNone \<Rightarrow> Inr None
      | RNum n \<Rightarrow>
          if is_int then (case int_of_number n of Inl e \<Rightarrow> Inl e | Inr i \<Rightarrow> Inr (Some (PInt i)))
          else (case float_cast n of Inl e \<Rightarrow> Inl e | Inr f \<Rightarrow> Inr (Some (PFloat f)))
      | RStr v \<Rightarrow>
          (let s = strip v in
           if s = '''' then Inr None
           else (let s' = legacy_separators s in
                 case py_float s' of
                   None \<Rightarrow> Inr (legacy_fallback s' is_int)
                 | Some num \<Rightarrow>
                     if is_int
                     then (case int_of_float num of
                             Inl e \<Rightarrow> Inr (legacy_fallback s' is_int)
                           | Inr i \<Rightarrow> Inr (Some (PInt i)))
                     else Inr (Some (PFloat num)))))"

section \<open>\<^verbatim>\<open>upsert_historico_selectivo\<close> (\<^verbatim>\<open>main.py\<close>)\<close>

text \<open>
  A calendar date is its ordinal. A data frame has column names and rows; a row gives the
  cell under each column name. The five values of a bar are \<^verbatim>\<open>None\<close> or a number, in
  the data frame after normalisation and in a stored row alike. The table
  \<^verbatim>\<open>historicos\<close> maps a ticker and a date to the stored values (the pair is its unique
  key), and an element of \<^verbatim>\<open>records_to_write\<close> is the ticker, the date and the values.
  A stored value is an int or a float, as the database driver returns it for an integer
  and for a double precision column; a column of type numeric, which the driver returns as
  a decimal, is outside the model. A value read back from the table is the value that was
  written.
\<close>

type_synonym date = nat

type_synonym row = "string \<Rightarrow> raw"

record dataframe =
  columns :: "string list"
  rows :: "row list"

record valores =
  apertura :: "number option"
  maximo :: "number option"
  minimo :: "number option"
  cierre :: "number option"
  volumen :: "number option"

type_synonym historicos = "int \<times> date \<rightharpoonup> valores"

type_synonym registro = "int \<times> date \<times> valores"

type_synonym cols =
  "string option \<times> string option \<times> string option \<times> string option \<times> string option"

text \<open>\<^verbatim>\<open>sub in s\<close> on strings.\<close>

fun contains :: "string \<Rightarrow> string \<Rightarrow> bool" where
  "contains sub [] = (sub = [])"
| "contains sub (c # cs) = (take (length sub) (c # cs) = sub \<or> contains sub cs)"

text \<open>The local function \<^verbatim>\<open>col\<close>: the first column whose name contains \<open>name\<close>.\<close>

definition col :: "string list \<Rightarrow> string \<Rightarrow> string option" where
  "col cs name = find (\<lambda>c. contains (lower name) (lower c)) cs"

text \<open>A column name in a condition: \<^verbatim>\<open>None\<close> and the empty string are false.\<close>

definition truthy :: "string option \<Rightarrow> bool" where
  "truthy c = (c \<noteq> None \<and> c \<noteq> Some [])"

definition py_or :: "string option \<Rightarrow> string option \<Rightarrow> string option" where
  "py_or a b = (if truthy a then a else b)"

text \<open>
  \<^verbatim>\<open>parse_number(row[c], is_int) if c and row.get(c) is not None else None\<close>
\<close>

definition field :: "string option \<Rightarrow> row \<Rightarrow> bool \<Rightarrow> exn + number option" where
  "field c r is_int =
     (case c of
        None \<Rightarrow> Inr None
      | Some name \<Rightarrow>
          if name \<noteq> [] \<and> r name \<noteq> RNone then parse_number (r name) is_int else Inr None)"

text \<open>\<^verbatim>\<open>math.isclose(a, b, rel_tol=1e-9, abs_tol=1e-9)\<close>\<close>

definition rel_tol :: real where
  "rel_tol = 1 / 10 ^ 9"

definition abs_tol :: real where
  "abs_tol = 1 / 10 ^ 9"

fun isclose :: "pyfloat \<Rightarrow> pyfloat \<Rightarrow> bool" where
  "isclose (Fin a) (Fin b) =
     (a = b \<or> \<bar>b - a\<bar> \<le> \<bar>rel_tol * b\<bar> \<or> \<bar>b - a\<bar> \<le> \<bar>rel_tol * a\<bar> \<or> \<bar>b - a\<bar> \<le> abs_tol)"
| "isclose PInf PInf = True"
| "isclose NInf NInf = True"
| "isclose _ _ = False"

fun is_float :: "number \<Rightarrow> bool" where
  "is_float (PFloat f) = True"
| "is_float (PInt i) = False"

text \<open>The local function \<^verbatim>\<open>diff\<close>: new value against stored value.\<close>

text \<open>
  When \<^verbatim>\<open>float(a)\<close> or \<^verbatim>\<open>float(b)\<close> raises, the handler of \<^verbatim>\<open>diff\<close> returns
  \<^verbatim>\<open>a != b\<close>.
\<close>

fun diff :: "number option \<Rightarrow> number option \<Rightarrow> bool" where
  "diff None None = False"
| "diff None (Some b) = True"
| "diff (Some a) None = True"
| "diff (Some a) (Some b) =
     (if is_float a \<or> is_float b then
        (case float_cast a of
           Inl e \<Rightarrow> \<not> py_eq a b
         | Inr x \<Rightarrow>
             (case float_cast b of
                Inl e \<Rightarrow> \<not> py_eq a b
              | Inr y \<Rightarrow> \<not> isclose x y))
      else \<not> py_eq a b)"

text \<open>The five normalised fields of a row, in the order the loop body computes them.\<close>

definition row_values :: "cols \<Rightarrow> row \<Rightarrow> exn + valores" where
  "row_values cs r =
     (case cs of (apertura_col, maximo_col, minimo_col, cierre_col, volumen_col) \<Rightarrow>
        (case field apertura_col r False of Inl e \<Rightarrow> Inl e | Inr a \<Rightarrow>
        (case field maximo_col r False of Inl e \<Rightarrow> Inl e | Inr ma \<Rightarrow>
        (case field minimo_col r False of Inl e \<Rightarrow> Inl e | Inr mi \<Rightarrow>
        (case field cierre_col r False of Inl e \<Rightarrow> Inl e | Inr c \<Rightarrow>
        (case field volumen_col r True of Inl e \<Rightarrow> Inl e | Inr v \<Rightarrow>
           Inr \<lparr>apertura = a, maximo = ma, minimo = mi, cierre = c, volumen = v\<rparr>))))))"

text \<open>\<^verbatim>\<open>cierre is not None and cierre < 0.01\<close>\<close>

definition cierre_bajo :: "valores \<Rightarrow> bool" where
  "cierre_bajo v =
     (case cierre v of
        None \<Rightarrow> False
      | Some c \<Rightarrow> float_less (float_of_number c) (Fin (1 / 100)))"

definition differs :: "valores \<Rightarrow> valores \<Rightarrow> bool" where
  "differs v existing_row =
     (diff (apertura v) (apertura existing_row) \<or> diff (maximo v) (maximo existing_row) \<or>
      diff (minimo v) (minimo existing_row) \<or> diff (cierre v) (cierre existing_row) \<or>
      diff (volumen v) (volumen existing_row))"

text \<open>
  The body of the loop over the rows with a date, on the pair of \<^verbatim>\<open>records_to_write\<close> and
  \<^verbatim>\<open>skipped\<close>. An exception raised in the body is caught there and the loop goes on
  with the next row.
\<close>

definition process_row ::
  "(date \<rightharpoonup> valores) \<Rightarrow> int \<Rightarrow> cols \<Rightarrow> date \<times> row
     \<Rightarrow> registro list \<times> nat \<Rightarrow> registro list \<times> nat" where
  "process_row existing_map ticker_id cs dr acc =
     (case dr of (fecha, r) \<Rightarrow>
      (case acc of (records_to_write, skipped) \<Rightarrow>
        (case row_values cs r of
           Inl e \<Rightarrow> (records_to_write, skipped)
         | Inr v \<Rightarrow>
             if cierre_bajo v then (records_to_write, skipped)
             else (case existing_map fecha of
                     None \<Rightarrow> (records_to_write @ [(ticker_id, fecha, v)], skipped)
                   | Some existing_row \<Rightarrow>
                       if differs v existing_row
                       then (records_to_write @ [(ticker_id, fecha, v)], skipped)
                       else (records_to_write, skipped + 1)))))"

text \<open>
  The rows whose date cell parses, each with its date. The parser of the date cell is
  pandas' \<^verbatim>\<open>to_datetime\<close> with \<^verbatim>\<open>errors='coerce'\<close>, a parameter of the model that
  gives \<^verbatim>\<open>None\<close> where pandas gives \<^verbatim>\<open>NaT\<close>.
\<close>

definition dated_rows :: "(raw \<Rightarrow> date option) \<Rightarrow> string \<Rightarrow> row list \<Rightarrow> (date \<times> row) list" where
  "dated_rows to_datetime fecha_col rs =
     List.map_filter (\<lambda>r. case to_datetime (r fecha_col) of None \<Rightarrow> None | Some d \<Rightarrow> Some (d, r)) rs"

definition py_max :: "date list \<Rightarrow> date" where
  "py_max ds = fold max (tl ds) (hd ds)"

text \<open>The columns the loop reads, found by name.\<close>

definition value_cols :: "string list \<Rightarrow> cols" where
  "value_cols cs =
     (col cs ''apertura'', col cs ''maximo'', col cs ''minimo'', col cs ''cierre'',
      py_or (col cs ''volumen'') (col cs ''volumen_nominal''))"

text \<open>
  The function returns the write set itself where the source hands it to
  \<^verbatim>\<open>execute_values\<close> and returns its length. The cursor is the table it reads.
\<close>

definition upsert_historico_selectivo ::
  "(raw \<Rightarrow> date option) \<Rightarrow> historicos \<Rightarrow> int \<Rightarrow> dataframe option
     \<Rightarrow> registro list \<times> nat \<times> date option" where
  "upsert_historico_selectivo to_datetime cur ticker_id historico_df =
     (case historico_df of
        None \<Rightarrow> ([], 0, None)
      | Some df \<Rightarrow>
          if rows df = [] \<or> columns df = [] then ([], 0, None)
          else
            (let fecha_col = col (columns df) ''fecha'' in
             if \<not> truthy fecha_col then ([], 0, None)
             else
               (let dated = dated_rows to_datetime (the fecha_col) (rows df) in
                if dated = [] then ([], 0, None)
                else
                  (let fechas = sort (remdups (map fst dated)) in
                   if fechas = [] then ([], 0, None)
                   else
                     (let fecha_mas_reciente = py_max fechas;
                          existing_map = (\<lambda>d. if d \<in> set fechas then cur (ticker_id, d) else None);
                          res = fold (process_row existing_map ticker_id (value_cols (columns df)))
                                  dated ([], 0)
                      in (fst res, snd res, Some fecha_mas_reciente))))))"

text \<open>
  The statement the write set is sent with: \<^verbatim>\<open>INSERT ... ON CONFLICT (ticker_id, fecha)
  DO UPDATE SET ... WHERE historicos.x IS DISTINCT FROM EXCLUDED.x OR ...\<close>, one record
  after the other. PostgreSQL refuses a statement that holds two records for one key; the
  model keeps the later one, and is the statement's effect only for a write set whose keys
  are pairwise distinct.
\<close>

definition upsert_record :: "registro \<Rightarrow> historicos \<Rightarrow> historicos" where
  "upsert_record w t =
     (case w of (ticker_id, fecha, v) \<Rightarrow>
        (case t (ticker_id, fecha) of
           None \<Rightarrow> t((ticker_id, fecha) \<mapsto> v)
         | Some old \<Rightarrow> if old \<noteq> v then t((ticker_id, fecha) \<mapsto> v) else t))"

definition execute_values :: "historicos \<Rightarrow> registro list \<Rightarrow> historicos" where
  "execute_values t records_to_write = fold upsert_record records_to_write t"

section \<open>The text \<^verbatim>\<open>str()\<close> gives a float\<close>

text \<open>
  Python writes a float with the shortest digits that read back as the same float: the
  digits \<open>d\<^sub>1 d\<^sub>2 \<dots>\<close>, at most 17, and the position \<open>decpt\<close> of the point, the value being
  \<open>0.d\<^sub>1 d\<^sub>2 \<dots> \<times> 10 ^ decpt\<close>. The text is in exponent notation when \<open>decpt \<le> -4\<close> or
  \<open>decpt > 16\<close>, and in positional notation with at least one digit after the point
  otherwise. For a finite float, taken here as the exact value of its decimal text, the
  digits are those of that text.
\<close>

definition digit_char :: "nat \<Rightarrow> char" where
  "digit_char d = ''0123456789'' ! (d mod 10)"

text \<open>
  Scaling a positive value into the interval from 0.1 to 1, counting the powers of ten;
  the bound on the steps covers the range of a float.
\<close>

fun point_up :: "nat \<Rightarrow> real \<Rightarrow> int \<Rightarrow> real \<times> int" where
  "point_up 0 r k = (r, k)"
| "point_up (Suc n) r k = (if r < 1 then (r, k) else point_up n (r / 10) (k + 1))"

fun point_down :: "nat \<Rightarrow> real \<Rightarrow> int \<Rightarrow> real \<times> int" where
  "point_down 0 r k = (r, k)"
| "point_down (Suc n) r k = (if 1 / 10 \<le> r then (r, k) else point_down n (r * 10) (k - 1))"

definition point :: "real \<Rightarrow> real \<times> int" where
  "point r = (if 1 \<le> r then point_up 400 r 0 else point_down 400 r 0)"

fun mantissa_digits :: "nat \<Rightarrow> real \<Rightarrow> string" where
  "mantissa_digits 0 m = []"
| "mantissa_digits (Suc n) m =
     (if m = 0 then []
      else digit_char (nat \<lfloor>10 * m\<rfloor>) # mantissa_digits n (10 * m - of_int \<lfloor>10 * m\<rfloor>))"

definition repr_fixed :: "string \<Rightarrow> int \<Rightarrow> string" where
  "repr_fixed ds decpt =
     (if decpt \<le> 0 then ''0.'' @ replicate (nat (- decpt)) CHR ''0'' @ ds
      else if int (length ds) \<le> decpt
        then ds @ replicate (nat decpt - length ds) CHR ''0'' @ ''.0''
      else take (nat decpt) ds @ ''.'' @ drop (nat decpt) ds)"

definition exp_digits :: "nat \<Rightarrow> string" where
  "exp_digits n =
     (if n < 10 then [CHR ''0'', digit_char n]
      else if n < 100 then [digit_char (n div 10), digit_char n]
      else [digit_char (n div 100), digit_char (n div 10), digit_char n])"

definition repr_exp :: "string \<Rightarrow> int \<Rightarrow> string" where
  "repr_exp ds decpt =
     (case ds of
        [] \<Rightarrow> []
      | d # rest \<Rightarrow> d # (if rest = [] then [] else CHR ''.'' # rest)) @
     ''e'' @ (if decpt - 1 < 0 then ''-'' else ''+'') @ exp_digits (nat \<bar>decpt - 1\<bar>)"

fun py_str :: "pyfloat \<Rightarrow> string" where
  "py_str NaN = ''nan''"
| "py_str PInf = ''inf''"
| "py_str NInf = ''-inf''"
| "py_str (Fin r) =
     (if r = 0 then ''0.0''
      else (if r < 0 then ''-'' else '''') @
           (case point \<bar>r\<bar> of (m, decpt) \<Rightarrow>
              if decpt \<le> - 4 \<or> decpt > 16 then repr_exp (mantissa_digits 17 m) decpt
              else repr_fixed (mantissa_digits 17 m) decpt))"

section \<open>Notions the statements use\<close>

text \<open>
  The rows the loop visits, each with its date: none when there is no date column.
\<close>

definition candidate_rows :: "(raw \<Rightarrow> date option) \<Rightarrow> dataframe \<Rightarrow> (date \<times> row) list" where
  "candidate_rows to_datetime df =
     (if truthy (col (columns df) ''fecha'')
      then dated_rows to_datetime (the (col (columns df) ''fecha'')) (rows df)
      else [])"

text \<open>
  A row survives when its five fields are normalised without an exception and its close is
  not below 0.01: the loop body then reaches the lookup in \<^verbatim>\<open>existing_map\<close>.
\<close>

definition survives :: "cols \<Rightarrow> row \<Rightarrow> bool" where
  "survives cs r = (case row_values cs r of Inl e \<Rightarrow> False | Inr v \<Rightarrow> \<not> cierre_bajo v)"

definition no_nan :: "valores \<Rightarrow> bool" where
  "no_nan v =
     (apertura v \<noteq> Some (PFloat NaN) \<and> maximo v \<noteq> Some (PFloat NaN) \<and>
      minimo v \<noteq> Some (PFloat NaN) \<and> cierre v \<noteq> Some (PFloat NaN) \<and>
      volumen v \<noteq> Some (PFloat NaN))"

section \<open>Sample data\<close>

text \<open>
  The data of the worked examples: two dates as the date parser reads them, the column
  names of a fetched table, a row of text cells, and the stored values of one bar.
\<close>

definition sample_to_datetime :: "raw \<Rightarrow> date option" where
  "sample_to_datetime c =
     (if c = RStr ''2024-01-02'' then Some 738887
      else if c = RStr ''2024-01-03'' then Some 738888
      else None)"

definition sample_columns :: "string list" where
  "sample_columns = [''Fecha'', ''Apertura'', ''Maximo'', ''Minimo'', ''Cierre'', ''Volumen'']"

definition sample_row :: "string \<Rightarrow> string \<Rightarrow> string \<Rightarrow> string \<Rightarrow> string \<Rightarrow> string \<Rightarrow> row" where
  "sample_row f a ma mi c v =
     (\<lambda>name. if name = ''Fecha'' then RStr f
             else if name = ''Apertura'' then RStr a
             else if name = ''Maximo'' then RStr ma
             else if name = ''Minimo'' then RStr mi
             else if name = ''Cierre'' then RStr c
             else if name = ''Volumen'' then RStr v
             else RNone)"

definition sample_valores :: "real \<Rightarrow> real \<Rightarrow> real \<Rightarrow> real \<Rightarrow> int \<Rightarrow> valores" where
  "sample_valores a ma mi c v =
     \<lparr>apertura = Some (PFloat (Fin a)), maximo = Some (PFloat (Fin ma)),
      minimo = Some (PFloat (Fin mi)), cierre = Some (PFloat (Fin c)), volumen = Some (PInt v)\<rparr>"

section \<open>Properties of \<^verbatim>\<open>parse_number\<close>\<close>

lemmas eval_text =
  parse_number_def to_number_def strip_def is_space_def number_strip_def is_number_space_def
  disambiguate_def rfind_def replace_def
  py_float_def floatnumber_def digitpart_def is_digit_def exponent_def nat_of_digits_def
  digit_val_def scale10_def lower_def lower_char_def finish_def trunc_def Let_def

lemma takeWhile_upto: "c \<notin> set xs \<Longrightarrow> takeWhile (\<lambda>x. x \<noteq> c) (xs @ c # ys) = xs"
  by (induction xs) auto

lemma takeWhile_past:
  "c' \<notin> set xs \<Longrightarrow> c' \<noteq> c \<Longrightarrow>
     takeWhile (\<lambda>x. x \<noteq> c') (xs @ c # ys) = xs @ c # takeWhile (\<lambda>x. x \<noteq> c') ys"
  by (induction xs) auto

lemma rfind_last: "c \<notin> set b \<Longrightarrow> rfind (a @ c # b) c = int (length a)"
  by (simp add: rfind_def takeWhile_upto)

lemma rfind_before:
  assumes "c' \<noteq> c" "c' \<notin> set b"
  shows "rfind (a @ c # b) c' < int (length a)"
  using assms by (simp add: rfind_def takeWhile_past)

lemma replace_nil: "replace s c [] = filter (\<lambda>x. x \<noteq> c) s"
  by (induction s) (simp_all add: replace_def)

lemma replace_one: "replace s c [d] = map (\<lambda>x. if x = c then d else x) s"
  by (induction s) (simp_all add: replace_def)

lemma filter_id: "c \<notin> set s \<Longrightarrow> filter (\<lambda>x. x \<noteq> c) s = s"
  by (induction s) auto

lemma disambiguate_dot_last:
  assumes "CHR '','' \<in> set a" "CHR '','' \<notin> set b" "CHR ''.'' \<notin> set b"
  shows "disambiguate (a @ CHR ''.'' # b) = filter (\<lambda>x. x \<noteq> CHR '','') a @ CHR ''.'' # b"
proof -
  have p: "rfind (a @ CHR ''.'' # b) CHR ''.'' = int (length a)"
    using assms by (simp add: rfind_last)
  have c: "rfind (a @ CHR ''.'' # b) CHR '','' < int (length a)"
    using assms by (simp add: rfind_before)
  show ?thesis
    using assms p c by (simp add: disambiguate_def Let_def replace_nil filter_id)
qed

lemma disambiguate_comma_last:
  assumes "CHR ''.'' \<in> set a" "CHR '','' \<notin> set b" "CHR ''.'' \<notin> set b"
  shows "disambiguate (a @ CHR '','' # b) =
           map (\<lambda>x. if x = CHR '','' then CHR ''.'' else x) (filter (\<lambda>x. x \<noteq> CHR ''.'') a) @ CHR ''.'' # b"
proof -
  have c: "rfind (a @ CHR '','' # b) CHR '','' = int (length a)"
    using assms by (simp add: rfind_last)
  have p: "rfind (a @ CHR '','' # b) CHR ''.'' < int (length a)"
    using assms by (simp add: rfind_before)
  have m: "map (\<lambda>x. if x = CHR '','' then CHR ''.'' else x) b = b"
    using assms(2) by (induction b) auto
  show ?thesis
    using assms p c m by (simp add: disambiguate_def Let_def replace_nil replace_one filter_id)
qed

lemma parse_number_text:
  "strip v = a @ c # b \<Longrightarrow> c = CHR ''.'' \<or> c = CHR '','' \<Longrightarrow>
     parse_number (RStr v) is_int = Inr (to_number (disambiguate (strip v)) is_int)"
  by (cases a) (auto simp: parse_number_def Let_def)

text \<open>
  C1. In a token with both a comma and a dot, the separator that comes last is the decimal
  point and the other one is removed: when the last separator is a dot, the commas are
  dropped; when it is a comma, the dots are dropped and the commas become dots. The text
  that results is what \<^verbatim>\<open>float\<close> reads. Both \<^verbatim>\<open>"20,390.00"\<close> and \<^verbatim>\<open>"20.390,00"\<close>
  give 20390.0.
\<close>

theorem later_separator_is_decimal:
  "(\<forall>a b. strip v = a @ CHR ''.'' # b \<and> CHR '','' \<in> set a \<and> CHR '','' \<notin> set b \<and> CHR ''.'' \<notin> set b
      \<longrightarrow> parse_number (RStr v) is_int =
            Inr (to_number (filter (\<lambda>x. x \<noteq> CHR '','') a @ CHR ''.'' # b) is_int)) \<and>
   (\<forall>a b. strip v = a @ CHR '','' # b \<and> CHR ''.'' \<in> set a \<and> CHR '','' \<notin> set b \<and> CHR ''.'' \<notin> set b
      \<longrightarrow> parse_number (RStr v) is_int =
            Inr (to_number (map (\<lambda>x. if x = CHR '','' then CHR ''.'' else x)
                              (filter (\<lambda>x. x \<noteq> CHR ''.'') a) @ CHR ''.'' # b) is_int)) \<and>
   parse_number (RStr ''20,390.00'') False = Inr (Some (PFloat (Fin 20390))) \<and>
   parse_number (RStr ''20.390,00'') False = Inr (Some (PFloat (Fin 20390)))"
proof (intro conjI allI impI)
  fix a b
  assume h: "strip v = a @ CHR ''.'' # b \<and> CHR '','' \<in> set a \<and> CHR '','' \<notin> set b \<and> CHR ''.'' \<notin> set b"
  then have "parse_number (RStr v) is_int = Inr (to_number (disambiguate (strip v)) is_int)"
    using parse_number_text by blast
  with h show "parse_number (RStr v) is_int =
            Inr (to_number (filter (\<lambda>x. x \<noteq> CHR '','') a @ CHR ''.'' # b) is_int)"
    by (simp add: disambiguate_dot_last)
next
  fix a b
  assume h: "strip v = a @ CHR '','' # b \<and> CHR ''.'' \<in> set a \<and> CHR '','' \<notin> set b \<and> CHR ''.'' \<notin> set b"
  then have "parse_number (RStr v) is_int = Inr (to_number (disambiguate (strip v)) is_int)"
    using parse_number_text by blast
  with h show "parse_number (RStr v) is_int =
            Inr (to_number (map (\<lambda>x. if x = CHR '','' then CHR ''.'' else x)
                              (filter (\<lambda>x. x \<noteq> CHR ''.'') a) @ CHR ''.'' # b) is_int)"
    by (simp add: disambiguate_comma_last)
next
  show "parse_number (RStr ''20,390.00'') False = Inr (Some (PFloat (Fin 20390)))"
    by (simp add: eval_text)
next
  show "parse_number (RStr ''20.390,00'') False = Inr (Some (PFloat (Fin 20390)))"
    by (simp add: eval_text)
qed


theorem later_separator_is_decimal_witness:
  "strip ''20,390.00'' = ''20,390'' @ CHR ''.'' # ''00'' \<and> CHR '','' \<in> set ''20,390'' \<and>
   CHR '','' \<notin> set ''00'' \<and> CHR ''.'' \<notin> set ''00'' \<and>
   parse_number (RStr ''20,390.00'') False = Inr (to_number ''20390.00'' False) \<and>
   strip ''20.390,00'' = ''20.390'' @ CHR '','' # ''00'' \<and> CHR ''.'' \<in> set ''20.390'' \<and>
   parse_number (RStr ''20.390,00'') False = Inr (to_number ''20390.00'' False)"
proof -
  have s1: "strip ''20,390.00'' = ''20,390'' @ CHR ''.'' # ''00''"
    by (simp add: strip_def is_space_def)
  have s2: "strip ''20.390,00'' = ''20.390'' @ CHR '','' # ''00''"
    by (simp add: strip_def is_space_def)
  have a: "parse_number (RStr ''20,390.00'') False =
             Inr (to_number (filter (\<lambda>x. x \<noteq> CHR '','') ''20,390'' @ CHR ''.'' # ''00'') False)"
    using later_separator_is_decimal [of "''20,390.00''" False, THEN conjunct1, rule_format,
            of "''20,390''" "''00''"] s1 by simp
  have b: "parse_number (RStr ''20.390,00'') False =
             Inr (to_number (map (\<lambda>x. if x = CHR '','' then CHR ''.'' else x)
                    (filter (\<lambda>x. x \<noteq> CHR ''.'') ''20.390'') @ CHR ''.'' # ''00'') False)"
    using later_separator_is_decimal [of "''20.390,00''" False, THEN conjunct2, THEN conjunct1,
            rule_format, of "''20.390''" "''00''"] s2 by simp
  show ?thesis using s1 s2 a b by simp
qed

lemma count_list_zero: "c \<notin> set s \<Longrightarrow> count_list s c = 0"
  by (induction s) auto

lemma count_list_app: "count_list (a @ b) c = count_list a c + count_list b c"
  by (induction a) auto

lemma disambiguate_one_dot:
  assumes "a \<noteq> []" "CHR '','' \<notin> set a" "CHR ''.'' \<notin> set a" "CHR '','' \<notin> set b" "CHR ''.'' \<notin> set b"
  shows "disambiguate (a @ CHR ''.'' # b) = (if length b > 3 then a @ b else a @ CHR ''.'' # b)"
proof -
  have p: "rfind (a @ CHR ''.'' # b) CHR ''.'' = int (length a)"
    using assms by (simp add: rfind_last)
  have n: "count_list (a @ CHR ''.'' # b) CHR ''.'' = 1"
    using assms by (simp add: count_list_app count_list_zero)
  have l: "0 < length a" using assms by simp
  show ?thesis
    using assms p n l by (simp add: disambiguate_def Let_def replace_nil filter_id)
qed

text \<open>
  C2, as the code has it. In a token with no comma and one dot that is not its first
  character, the dot is removed when more than three characters follow it and is the
  decimal point otherwise. So \<^verbatim>\<open>"20.500"\<close>, with three characters after the dot, is
  20.5, as is \<^verbatim>\<open>"20.5"\<close>, and \<^verbatim>\<open>"20.5000"\<close> is 205000.0.
\<close>

theorem single_dot_rule:
  "(\<forall>a b. strip v = a @ CHR ''.'' # b \<and> a \<noteq> [] \<and> CHR '','' \<notin> set a \<and> CHR ''.'' \<notin> set a \<and>
          CHR '','' \<notin> set b \<and> CHR ''.'' \<notin> set b
      \<longrightarrow> parse_number (RStr v) is_int =
            Inr (to_number (if length b > 3 then a @ b else a @ CHR ''.'' # b) is_int)) \<and>
   parse_number (RStr ''20.500'') False = Inr (Some (PFloat (Fin (41 / 2)))) \<and>
   parse_number (RStr ''20.5'') False = Inr (Some (PFloat (Fin (41 / 2)))) \<and>
   parse_number (RStr ''20.5000'') False = Inr (Some (PFloat (Fin 205000)))"
proof (intro conjI allI impI)
  fix a b
  assume h: "strip v = a @ CHR ''.'' # b \<and> a \<noteq> [] \<and> CHR '','' \<notin> set a \<and> CHR ''.'' \<notin> set a \<and>
          CHR '','' \<notin> set b \<and> CHR ''.'' \<notin> set b"
  then have "parse_number (RStr v) is_int = Inr (to_number (disambiguate (strip v)) is_int)"
    using parse_number_text by blast
  with h show "parse_number (RStr v) is_int =
            Inr (to_number (if length b > 3 then a @ b else a @ CHR ''.'' # b) is_int)"
    by (simp add: disambiguate_one_dot)
qed (simp_all add: eval_text)

theorem single_dot_rule_witness:
  "strip ''20.5000'' = ''20'' @ CHR ''.'' # ''5000'' \<and> ''20'' \<noteq> [] \<and>
   CHR '','' \<notin> set ''20'' \<and> CHR ''.'' \<notin> set ''20'' \<and> CHR '','' \<notin> set ''5000'' \<and> CHR ''.'' \<notin> set ''5000'' \<and>
   parse_number (RStr ''20.5000'') False = Inr (to_number ''205000'' False)"
proof -
  have s1: "strip ''20.5000'' = ''20'' @ CHR ''.'' # ''5000''"
    by (simp add: strip_def is_space_def)
  have "parse_number (RStr ''20.5000'') False =
          Inr (to_number (if length ''5000'' > 3 then ''20'' @ ''5000'' else ''20'' @ CHR ''.'' # ''5000'') False)"
    using single_dot_rule [of "''20.5000''" False, THEN conjunct1, rule_format,
            of "''20''" "''5000''"] s1 by simp
  then show ?thesis using s1 by simp
qed

text \<open>The token \<^verbatim>\<open>"20.500"\<close> is not read as 20500.\<close>

theorem three_digits_counterexample:
  "parse_number (RStr ''20.500'') False \<noteq> Inr (Some (PFloat (Fin 20500)))"
  by (simp add: eval_text)

text \<open>
  C3, as the code has it. When the parse of the disambiguated text fails, the result is
  \<^verbatim>\<open>None\<close> at once: the handler of \<^verbatim>\<open>main.py\<close> does not strip the separators and
  parse again.
\<close>

theorem no_fallback:
  "to_number (disambiguate (strip v)) is_int = None \<Longrightarrow> parse_number (RStr v) is_int = Inr None"
  by (simp add: parse_number_def Let_def)

theorem no_fallback_witness:
  "to_number (disambiguate (strip ''1,2,3.4.5'')) False = None \<and>
   parse_number (RStr ''1,2,3.4.5'') False = Inr None"
proof -
  have h: "to_number (disambiguate (strip ''1,2,3.4.5'')) False = None"
    by (simp add: eval_text)
  show ?thesis using h no_fallback [OF h] by simp
qed

text \<open>
  A token whose disambiguated text does not parse although the text without any separator
  would: the result is \<^verbatim>\<open>None\<close>.
\<close>

theorem fallback_counterexample:
  "to_number (disambiguate (strip ''1,2,3.4.5'')) False = None \<and>
   to_number (replace (replace (strip ''1,2,3.4.5'') CHR '','' []) CHR ''.'' []) False
     = Some (PFloat (Fin 12345)) \<and>
   parse_number (RStr ''1,2,3.4.5'') False = Inr None"
  by (simp add: eval_text)

text \<open>
  The older \<^verbatim>\<open>parse_number\<close> of \<^verbatim>\<open>main..py\<close> is the one that falls back: when the text
  after its separator rules does not parse, the result is that of parsing the text without
  commas and dots.
\<close>

lemma legacy_falls_back:
  "strip v \<noteq> [] \<Longrightarrow> py_float (legacy_separators (strip v)) = None \<Longrightarrow>
     legacy_parse_number (RStr v) is_int = Inr (legacy_fallback (legacy_separators (strip v)) is_int)"
  by (simp add: legacy_parse_number_def Let_def)

lemma legacy_examples:
  "legacy_parse_number (RStr ''1,2,3.4.5'') False = Inr (Some (PFloat (Fin 12345)))"
  "legacy_parse_number (RStr ''1,2,3.4.5'') True = Inr (Some (PInt 12345))"
  "legacy_parse_number (RStr ''20,390.00'') False = Inr (Some (PFloat (Fin (2039 / 100))))"
  "legacy_parse_number (RStr ''-5'') False = Inr (Some (PFloat (Fin (- 5))))"
  "legacy_parse_number (RStr ''abc'') False = Inr None"
  by (simp_all add: legacy_parse_number_def legacy_separators_def legacy_fallback_def py_int_def
        eval_text)

lemma finish_not_negative:
  "finish num is_int = Some n \<Longrightarrow> \<not> float_less (float_of_number n) (Fin 0)"
  by (cases num) (auto simp: finish_def trunc_def split: if_splits)

text \<open>
  C6, for text. On a string \<^verbatim>\<open>parse_number\<close> raises nothing and returns no number below
  zero; the empty string, a bare minus sign, text that is no number and \<^verbatim>\<open>"-5"\<close> give
  \<^verbatim>\<open>None\<close>, and \<^verbatim>\<open>"1234"\<close> gives 1234.0.
\<close>

theorem text_never_negative:
  "(\<exists>r. parse_number (RStr v) is_int = Inr r) \<and>
   (\<forall>n. parse_number (RStr v) is_int = Inr (Some n) \<longrightarrow> \<not> float_less (float_of_number n) (Fin 0)) \<and>
   parse_number (RStr []) is_int = Inr None \<and>
   parse_number (RStr ''-'') is_int = Inr None \<and>
   parse_number (RStr ''abc'') is_int = Inr None \<and>
   parse_number (RStr ''-5'') is_int = Inr None \<and>
   parse_number (RStr ''1234'') False = Inr (Some (PFloat (Fin 1234)))"
proof (intro conjI allI impI)
  show "\<exists>r. parse_number (RStr v) is_int = Inr r"
    by (simp add: parse_number_def Let_def)
next
  fix n
  assume "parse_number (RStr v) is_int = Inr (Some n)"
  then show "\<not> float_less (float_of_number n) (Fin 0)"
    by (auto simp: parse_number_def to_number_def Let_def
          split: if_splits option.splits dest: finish_not_negative)
qed (simp_all add: eval_text)

theorem text_never_negative_witness:
  "parse_number (RStr ''1234'') False = Inr (Some (PFloat (Fin 1234))) \<and>
   \<not> float_less (float_of_number (PFloat (Fin 1234))) (Fin 0)"
proof -
  have h: "parse_number (RStr ''1234'') False = Inr (Some (PFloat (Fin 1234)))"
    by (simp add: eval_text)
  have "\<forall>n. parse_number (RStr ''1234'') False = Inr (Some n) \<longrightarrow>
          \<not> float_less (float_of_number n) (Fin 0)"
    using text_never_negative [of "''1234''" False] by blast
  with h show ?thesis by blast
qed

text \<open>A negative float argument is returned, negative.\<close>

theorem numeric_negative_counterexample:
  "parse_number (RNum (PFloat (Fin (- 5)))) False = Inr (Some (PFloat (Fin (- 5)))) \<and>
   float_less (Fin (- 5)) (Fin 0)"
  by (simp add: parse_number_def)

text \<open>
  C10, as the code has it. A numeric argument skips the separator rules and the range
  check. Without \<^verbatim>\<open>is_int\<close> a float is returned as it is and an int as a float, unless
  the int is beyond the range of a double: then \<^verbatim>\<open>float\<close> raises. With \<^verbatim>\<open>is_int\<close> an
  int is returned as it is and a finite float truncated toward zero, while nan and the
  infinities make \<^verbatim>\<open>int\<close> raise. Both calls are outside the \<^verbatim>\<open>try\<close> block. The
  float -5.0 comes back as -5.0.
\<close>

theorem numeric_passthrough:
  "parse_number (RNum (PFloat f)) False = Inr (Some (PFloat f)) \<and>
   (\<not> overflows i \<longrightarrow> parse_number (RNum (PInt i)) False = Inr (Some (PFloat (Fin (of_int i))))) \<and>
   (overflows i \<longrightarrow> parse_number (RNum (PInt i)) False = Inl OverflowError) \<and>
   parse_number (RNum (PInt i)) True = Inr (Some (PInt i)) \<and>
   parse_number (RNum (PFloat (Fin r))) True = Inr (Some (PInt (trunc r))) \<and>
   parse_number (RNum (PFloat NaN)) True = Inl ValueError \<and>
   parse_number (RNum (PFloat PInf)) True = Inl OverflowError \<and>
   parse_number (RNum (PFloat NInf)) True = Inl OverflowError \<and>
   parse_number (RNum (PFloat (Fin (- 5)))) False = Inr (Some (PFloat (Fin (- 5))))"
  by (simp add: parse_number_def)

theorem numeric_passthrough_witness:
  "\<not> overflows 7 \<and>
   parse_number (RNum (PInt 7)) False = Inr (Some (PFloat (Fin 7))) \<and>
   overflows (10 ^ 400) \<and>
   parse_number (RNum (PInt (10 ^ 400))) False = Inl OverflowError"
proof -
  have a: "\<not> overflows 7"
    by (simp add: overflows_def)
  have b: "overflows (10 ^ 400)"
    by (simp add: overflows_def)
  have c: "parse_number (RNum (PInt 7)) False = Inr (Some (PFloat (Fin (of_int 7))))"
    using numeric_passthrough [where i = 7, THEN conjunct2, THEN conjunct1, rule_format, OF a] .
  have d: "parse_number (RNum (PInt (10 ^ 400))) False = Inl OverflowError"
    using numeric_passthrough [where i = "10 ^ 400", THEN conjunct2, THEN conjunct2,
            THEN conjunct1, rule_format, OF b] .
  show ?thesis using a b c d by simp
qed

text \<open>
  With \<^verbatim>\<open>is_int\<close>, the float nan makes \<^verbatim>\<open>parse_number\<close> raise; without it, so does the
  int \<open>10 ^ 400\<close>.
\<close>

theorem numeric_raises_counterexample:
  "parse_number (RNum (PFloat NaN)) True = Inl ValueError \<and>
   parse_number (RNum (PInt (10 ^ 400))) False = Inl OverflowError"
  by (simp add: parse_number_def overflows_def)

section \<open>Properties of \<^verbatim>\<open>upsert_historico_selectivo\<close>\<close>

lemmas eval_upsert =
  upsert_historico_selectivo_def col_def value_cols_def py_or_def truthy_def field_def
  row_values_def cierre_bajo_def differs_def process_row_def dated_rows_def py_max_def
  List.map_filter_def sample_to_datetime_def sample_columns_def sample_row_def
  sample_valores_def rel_tol_def abs_tol_def

lemma py_max_Max: "ds \<noteq> [] \<Longrightarrow> py_max ds = Max (set ds)"
  by (cases ds) (simp_all add: py_max_def flip: Max.set_eq_fold)

lemma process_row_cases:
  "process_row em tid cs (d, r) (ws, sk) =
     (case row_values cs r of
        Inl e \<Rightarrow> (ws, sk)
      | Inr v \<Rightarrow>
          if cierre_bajo v then (ws, sk)
          else if em d = None \<or> differs v (the (em d)) then (ws @ [(tid, d, v)], sk)
          else (ws, sk + 1))"
  by (auto simp: process_row_def split: sum.splits option.splits)

lemma process_row_keeps:
  "\<forall>w\<in>set (fst acc). \<not> cierre_bajo (snd (snd w)) \<Longrightarrow>
   \<forall>w\<in>set (fst (process_row em tid cs dr acc)). \<not> cierre_bajo (snd (snd w))"
  by (cases dr; cases acc) (auto simp: process_row_cases split: sum.splits if_splits)

lemma fold_process_row_keeps:
  "\<forall>w\<in>set (fst acc). \<not> cierre_bajo (snd (snd w)) \<Longrightarrow>
   \<forall>w\<in>set (fst (fold (process_row em tid cs) drs acc)). \<not> cierre_bajo (snd (snd w))"
proof (induction drs arbitrary: acc)
  case Nil
  then show ?case by simp
next
  case (Cons dr drs)
  have "\<forall>w\<in>set (fst (process_row em tid cs dr acc)). \<not> cierre_bajo (snd (snd w))"
    using Cons.prems by (rule process_row_keeps)
  then show ?case using Cons.IH by simp
qed

lemma col_Nil: "col [] name = None"
  by (simp add: col_def)

lemma dated_rows_Nil: "dated_rows td fc [] = []"
  by (simp add: dated_rows_def List.map_filter_def)

lemma upsert_unfold:
  "upsert_historico_selectivo td cur tid (Some df) =
     (if \<not> truthy (col (columns df) ''fecha'') \<or>
         dated_rows td (the (col (columns df) ''fecha'')) (rows df) = []
      then ([], 0, None)
      else (fst (fold (process_row
                        (\<lambda>d. if d \<in> fst ` set (dated_rows td (the (col (columns df) ''fecha'')) (rows df))
                              then cur (tid, d) else None)
                        tid (value_cols (columns df)))
                   (dated_rows td (the (col (columns df) ''fecha'')) (rows df)) ([], 0)),
            snd (fold (process_row
                        (\<lambda>d. if d \<in> fst ` set (dated_rows td (the (col (columns df) ''fecha'')) (rows df))
                              then cur (tid, d) else None)
                        tid (value_cols (columns df)))
                   (dated_rows td (the (col (columns df) ''fecha'')) (rows df)) ([], 0)),
            Some (Max (fst ` set (dated_rows td (the (col (columns df) ''fecha'')) (rows df))))))"
proof -
  let ?dated = "dated_rows td (the (col (columns df) ''fecha'')) (rows df)"
  let ?fechas = "sort (remdups (map fst ?dated))"
  have s: "set ?fechas = fst ` set ?dated" by simp
  have n: "?dated \<noteq> [] \<Longrightarrow> ?fechas \<noteq> []"
    by (metis s empty_is_image set_empty)
  have m: "?dated \<noteq> [] \<Longrightarrow> py_max ?fechas = Max (fst ` set ?dated)"
    using n py_max_Max s by metis
  show ?thesis
  proof (cases "rows df = [] \<or> columns df = []")
    case True
    then show ?thesis
      by (auto simp: upsert_historico_selectivo_def col_Nil dated_rows_Nil truthy_def)
  next
    case False
    then show ?thesis
      using n m by (simp add: upsert_historico_selectivo_def Let_def)
  qed
qed

lemma upsert_write_set:
  "fst (upsert_historico_selectivo td cur tid df) = [] \<or>
   (\<exists>em cs drs. fst (upsert_historico_selectivo td cur tid df) =
        fst (fold (process_row em tid cs) drs ([], 0)))"
proof (cases df)
  case None
  then show ?thesis by (simp add: upsert_historico_selectivo_def)
next
  case (Some d)
  show ?thesis
  proof (cases "\<not> truthy (col (columns d) ''fecha'') \<or>
         dated_rows td (the (col (columns d) ''fecha'')) (rows d) = []")
    case True
    then show ?thesis unfolding Some upsert_unfold by simp
  next
    case False
    have "\<exists>em cs drs. fst (upsert_historico_selectivo td cur tid (Some d)) =
        fst (fold (process_row em tid cs) drs ([], 0))"
      unfolding upsert_unfold using False by (intro exI) simp
    then show ?thesis unfolding Some by blast
  qed
qed

text \<open>
  C9. A row whose normalised close is present and below 0.01 leaves the write set and the
  skipped count as they were, and no record of the returned write set has such a close.
\<close>

theorem low_close_discarded:
  "(\<forall>v c. row_values cs r = Inr v \<and> cierre v = Some c \<and>
          float_less (float_of_number c) (Fin (1 / 100))
      \<longrightarrow> process_row existing_map ticker_id cs (fecha, r) acc = acc) \<and>
   (\<forall>w\<in>set (fst (upsert_historico_selectivo to_datetime cur ticker_id historico_df)).
      \<forall>c. cierre (snd (snd w)) = Some c \<longrightarrow> \<not> float_less (float_of_number c) (Fin (1 / 100)))"
proof (intro conjI allI impI)
  fix v c
  assume "row_values cs r = Inr v \<and> cierre v = Some c \<and>
          float_less (float_of_number c) (Fin (1 / 100))"
  then show "process_row existing_map ticker_id cs (fecha, r) acc = acc"
    by (cases acc) (simp add: process_row_cases cierre_bajo_def)
next
  have "\<forall>w\<in>set (fst (upsert_historico_selectivo to_datetime cur ticker_id historico_df)).
          \<not> cierre_bajo (snd (snd w))"
  proof -
    have k: "\<forall>w\<in>set (fst (fold (process_row em ticker_id cs') drs ([], 0))).
               \<not> cierre_bajo (snd (snd w))" for em cs' drs
      by (rule fold_process_row_keeps) simp
    show ?thesis
      using upsert_write_set [of to_datetime cur ticker_id historico_df]
      by (elim disjE exE; simp add: k)
  qed
  then show "\<forall>w\<in>set (fst (upsert_historico_selectivo to_datetime cur ticker_id historico_df)).
      \<forall>c. cierre (snd (snd w)) = Some c \<longrightarrow> \<not> float_less (float_of_number c) (Fin (1 / 100))"
    by (auto simp: cierre_bajo_def)
qed


lemma sample_fecha_col: "col sample_columns ''fecha'' = Some ''Fecha''"
  by (simp add: col_def sample_columns_def lower_def lower_char_def)

lemma sample_value_cols:
  "value_cols sample_columns =
     (Some ''Apertura'', Some ''Maximo'', Some ''Minimo'', Some ''Cierre'', Some ''Volumen'')"
  by (simp add: value_cols_def col_def sample_columns_def lower_def lower_char_def py_or_def truthy_def)

lemma sample_row_1:
  "row_values (Some ''Apertura'', Some ''Maximo'', Some ''Minimo'', Some ''Cierre'', Some ''Volumen'')
     (sample_row f ''10'' ''11'' ''9'' ''10.5'' ''100'') = Inr (sample_valores 10 11 9 (21 / 2) 100)"
  by (simp add: row_values_def field_def sample_row_def sample_valores_def eval_text)

lemma sample_row_2:
  "row_values (Some ''Apertura'', Some ''Maximo'', Some ''Minimo'', Some ''Cierre'', Some ''Volumen'')
     (sample_row f ''11'' ''12'' ''10'' ''11.5'' ''200'') = Inr (sample_valores 11 12 10 (23 / 2) 200)"
  by (simp add: row_values_def field_def sample_row_def sample_valores_def eval_text)

lemma sample_row_3:
  "row_values (Some ''Apertura'', Some ''Maximo'', Some ''Minimo'', Some ''Cierre'', Some ''Volumen'')
     (sample_row f ''11'' ''12'' ''10'' ''0.001'' ''200'') = Inr (sample_valores 11 12 10 (1 / 1000) 200)"
  by (simp add: row_values_def field_def sample_row_def sample_valores_def eval_text)

lemma sample_dates:
  "sample_to_datetime (sample_row ''2024-01-02'' a ma mi c v ''Fecha'') = Some 738887"
  "sample_to_datetime (sample_row ''2024-01-03'' a ma mi c v ''Fecha'') = Some 738888"
  by (simp_all add: sample_to_datetime_def sample_row_def)

lemmas eval_sample =
  upsert_unfold sample_fecha_col sample_value_cols sample_row_1 sample_row_2 sample_row_3
  sample_dates truthy_def dated_rows_def List.map_filter_def process_row_cases
  cierre_bajo_def differs_def sample_valores_def rel_tol_def abs_tol_def

theorem low_close_discarded_witness:
  "row_values (value_cols sample_columns)
     (sample_row ''2024-01-03'' ''11'' ''12'' ''10'' ''0.001'' ''200'')
     = Inr (sample_valores 11 12 10 (1 / 1000) 200) \<and>
   cierre (sample_valores 11 12 10 (1 / 1000) 200) = Some (PFloat (Fin (1 / 1000))) \<and>
   float_less (float_of_number (PFloat (Fin (1 / 1000)))) (Fin (1 / 100)) \<and>
   process_row Map.empty 1 (value_cols sample_columns)
     (738888, sample_row ''2024-01-03'' ''11'' ''12'' ''10'' ''0.001'' ''200'') ([], 0) = ([], 0) \<and>
   (1, 738888, sample_valores 11 12 10 (23 / 2) 200)
     \<in> set (fst (upsert_historico_selectivo sample_to_datetime Map.empty 1
                   (Some \<lparr>columns = sample_columns,
                          rows = [sample_row ''2024-01-03'' ''11'' ''12'' ''10'' ''11.5'' ''200'']\<rparr>))) \<and>
   \<not> float_less (float_of_number (PFloat (Fin (23 / 2)))) (Fin (1 / 100))"
proof -
  have a: "row_values (value_cols sample_columns)
     (sample_row ''2024-01-03'' ''11'' ''12'' ''10'' ''0.001'' ''200'')
     = Inr (sample_valores 11 12 10 (1 / 1000) 200)"
    by (simp add: sample_value_cols sample_row_3)
  have b: "cierre (sample_valores 11 12 10 (1 / 1000) 200) = Some (PFloat (Fin (1 / 1000)))"
    by (simp add: sample_valores_def)
  have c: "float_less (float_of_number (PFloat (Fin (1 / 1000)))) (Fin (1 / 100))"
    by simp
  have d: "process_row Map.empty 1 (value_cols sample_columns)
     (738888, sample_row ''2024-01-03'' ''11'' ''12'' ''10'' ''0.001'' ''200'') ([], 0) = ([], 0)"
    using low_close_discarded [THEN conjunct1, rule_format, OF conjI [OF a conjI [OF b c]]] .
  have e: "(1, 738888, sample_valores 11 12 10 (23 / 2) 200)
     \<in> set (fst (upsert_historico_selectivo sample_to_datetime Map.empty 1
                   (Some \<lparr>columns = sample_columns,
                          rows = [sample_row ''2024-01-03'' ''11'' ''12'' ''10'' ''11.5'' ''200'']\<rparr>)))"
    by (simp add: eval_sample)
  have f: "cierre (snd (snd (1::int, 738888::nat, sample_valores 11 12 10 (23 / 2) 200)))
             = Some (PFloat (Fin (23 / 2)))"
    by (simp add: sample_valores_def)
  have g: "\<not> float_less (float_of_number (PFloat (Fin (23 / 2)))) (Fin (1 / 100))"
    using low_close_discarded [THEN conjunct2, rule_format, OF e f] .
  show ?thesis using a b c d e g by blast
qed

text \<open>
  C8, as the code has it. Without a data frame, without a date column, or when no row has
  a date that parses, the result is the empty write set, zero and no date. Otherwise the
  third component is the greatest date among the rows whose date parses, whatever becomes
  of those rows: a row dropped for its close still counts.
\<close>

theorem most_recent_date:
  "upsert_historico_selectivo to_datetime cur ticker_id None = ([], 0, None) \<and>
   (\<not> truthy (col (columns df) ''fecha'')
      \<longrightarrow> upsert_historico_selectivo to_datetime cur ticker_id (Some df) = ([], 0, None)) \<and>
   (dated_rows to_datetime (the (col (columns df) ''fecha'')) (rows df) = []
      \<longrightarrow> upsert_historico_selectivo to_datetime cur ticker_id (Some df) = ([], 0, None)) \<and>
   (truthy (col (columns df) ''fecha'') \<and>
    dated_rows to_datetime (the (col (columns df) ''fecha'')) (rows df) \<noteq> []
      \<longrightarrow> snd (snd (upsert_historico_selectivo to_datetime cur ticker_id (Some df))) =
            Some (Max (fst ` set (dated_rows to_datetime (the (col (columns df) ''fecha'')) (rows df)))))"
  by (simp add: upsert_unfold) (simp add: upsert_historico_selectivo_def)

text \<open>
  One row, with a date and a close below 0.01: the row is dropped and its date is returned.
\<close>

theorem low_close_date_counterexample:
  "row_values (value_cols sample_columns)
     (sample_row ''2024-01-03'' ''11'' ''12'' ''10'' ''0.001'' ''200'')
     = Inr (sample_valores 11 12 10 (1 / 1000) 200) \<and>
   cierre_bajo (sample_valores 11 12 10 (1 / 1000) 200) \<and>
   upsert_historico_selectivo sample_to_datetime Map.empty 1
     (Some \<lparr>columns = sample_columns,
            rows = [sample_row ''2024-01-03'' ''11'' ''12'' ''10'' ''0.001'' ''200'']\<rparr>)
     = ([], 0, Some 738888)"
  by (simp add: eval_sample)


theorem most_recent_date_witness:
  "\<not> truthy (col [''Cierre''] ''fecha'') \<and>
   upsert_historico_selectivo sample_to_datetime Map.empty 1
     (Some \<lparr>columns = [''Cierre''], rows = [\<lambda>name. RStr ''10'']\<rparr>) = ([], 0, None) \<and>
   dated_rows sample_to_datetime (the (col sample_columns ''fecha''))
     [sample_row ''ayer'' ''11'' ''12'' ''10'' ''11.5'' ''200''] = [] \<and>
   upsert_historico_selectivo sample_to_datetime Map.empty 1
     (Some \<lparr>columns = sample_columns,
            rows = [sample_row ''ayer'' ''11'' ''12'' ''10'' ''11.5'' ''200'']\<rparr>) = ([], 0, None) \<and>
   truthy (col sample_columns ''fecha'') \<and>
   dated_rows sample_to_datetime (the (col sample_columns ''fecha''))
     [sample_row ''2024-01-03'' ''11'' ''12'' ''10'' ''0.001'' ''200'',
      sample_row ''2024-01-02'' ''10'' ''11'' ''9'' ''10.5'' ''100''] \<noteq> [] \<and>
   snd (snd (upsert_historico_selectivo sample_to_datetime Map.empty 1
     (Some \<lparr>columns = sample_columns,
            rows = [sample_row ''2024-01-03'' ''11'' ''12'' ''10'' ''0.001'' ''200'',
                    sample_row ''2024-01-02'' ''10'' ''11'' ''9'' ''10.5'' ''100'']\<rparr>)))
     = Some 738888"
proof -
  let ?df1 = "\<lparr>columns = [''Cierre''], rows = [\<lambda>name. RStr ''10'']\<rparr>"
  let ?df2 = "\<lparr>columns = sample_columns,
            rows = [sample_row ''ayer'' ''11'' ''12'' ''10'' ''11.5'' ''200'']\<rparr>"
  let ?df3 = "\<lparr>columns = sample_columns,
            rows = [sample_row ''2024-01-03'' ''11'' ''12'' ''10'' ''0.001'' ''200'',
                    sample_row ''2024-01-02'' ''10'' ''11'' ''9'' ''10.5'' ''100'']\<rparr>"
  have a: "\<not> truthy (col (columns ?df1) ''fecha'')"
    by (simp add: col_def truthy_def lower_def lower_char_def)
  have b: "dated_rows sample_to_datetime (the (col (columns ?df2) ''fecha'')) (rows ?df2) = []"
    by (simp add: sample_fecha_col dated_rows_def List.map_filter_def sample_to_datetime_def
          sample_row_def)
  have c: "truthy (col (columns ?df3) ''fecha'')"
    by (simp add: sample_fecha_col truthy_def)
  have d: "dated_rows sample_to_datetime (the (col (columns ?df3) ''fecha'')) (rows ?df3) =
             [(738888, sample_row ''2024-01-03'' ''11'' ''12'' ''10'' ''0.001'' ''200''),
              (738887, sample_row ''2024-01-02'' ''10'' ''11'' ''9'' ''10.5'' ''100'')]"
    by (simp add: sample_fecha_col dated_rows_def List.map_filter_def sample_dates)
  have d': "dated_rows sample_to_datetime (the (col (columns ?df3) ''fecha'')) (rows ?df3) \<noteq> []"
    using d by simp
  note t = most_recent_date [of sample_to_datetime Map.empty 1]
  have r1: "upsert_historico_selectivo sample_to_datetime Map.empty 1 (Some ?df1) = ([], 0, None)"
    using t [of ?df1, THEN conjunct2, THEN conjunct1, rule_format, OF a] .
  have r2: "upsert_historico_selectivo sample_to_datetime Map.empty 1 (Some ?df2) = ([], 0, None)"
    using t [of ?df2, THEN conjunct2, THEN conjunct2, THEN conjunct1, rule_format, OF b] .
  have r3: "snd (snd (upsert_historico_selectivo sample_to_datetime Map.empty 1 (Some ?df3))) =
              Some (Max (fst ` set (dated_rows sample_to_datetime
                                      (the (col (columns ?df3) ''fecha'')) (rows ?df3))))"
    using t [of ?df3, THEN conjunct2, THEN conjunct2, THEN conjunct2, rule_format,
             OF conjI [OF c d']] .
  have r3': "snd (snd (upsert_historico_selectivo sample_to_datetime Map.empty 1 (Some ?df3))) =
              Some 738888"
    unfolding r3 d by simp
  show ?thesis using a b c d' r1 r2 r3' by simp
qed

lemma finish_type:
  "finish num is_int = Some n \<Longrightarrow> is_float n = (\<not> is_int)"
  by (auto simp: finish_def split: if_splits sum.splits)

lemma parse_number_type:
  "parse_number x is_int = Inr (Some n) \<Longrightarrow> is_float n = (\<not> is_int)"
  by (cases x)
     (auto simp: parse_number_def to_number_def Let_def
           split: if_splits sum.splits option.splits dest: finish_type)

lemma field_type:
  "field c r is_int = Inr (Some n) \<Longrightarrow> is_float n = (\<not> is_int)"
  by (auto simp: field_def split: option.splits if_splits dest: parse_number_type)

lemma row_values_fields:
  assumes "row_values cs r = Inr v"
  obtains ac mac mic cc vc where
    "field ac r False = Inr (apertura v)" "field mac r False = Inr (maximo v)"
    "field mic r False = Inr (minimo v)" "field cc r False = Inr (cierre v)"
    "field vc r True = Inr (volumen v)"
  using assms
  by (cases cs) (auto simp: row_values_def split: sum.splits)

lemma row_values_types:
  assumes "row_values cs r = Inr v"
  shows "(\<forall>n. apertura v = Some n \<longrightarrow> is_float n) \<and> (\<forall>n. maximo v = Some n \<longrightarrow> is_float n) \<and>
         (\<forall>n. minimo v = Some n \<longrightarrow> is_float n) \<and> (\<forall>n. cierre v = Some n \<longrightarrow> is_float n) \<and>
         (\<forall>n. volumen v = Some n \<longrightarrow> \<not> is_float n)"
proof -
  from assms obtain ac mac mic cc vc where
    f: "field ac r False = Inr (apertura v)" "field mac r False = Inr (maximo v)"
       "field mic r False = Inr (minimo v)" "field cc r False = Inr (cierre v)"
       "field vc r True = Inr (volumen v)"
    by (rule row_values_fields)
  show ?thesis
    using f field_type by (metis (full_types))
qed

lemma sample_row_5:
  "row_values (Some ''Apertura'', Some ''Maximo'', Some ''Minimo'', Some ''Cierre'', Some ''Volumen'')
     (sample_row f ''10'' ''11'' ''9'' ''10.5'' ''1000000001'')
     = Inr (sample_valores 10 11 9 (21 / 2) 1000000001)"
  by (simp add: row_values_def field_def sample_row_def sample_valores_def eval_text)

text \<open>
  A row whose volume is the int 1000000001, against a stored row with the same prices and
  the float volume 1000000000.0: the two volumes are within the tolerance, and the row is
  skipped.
\<close>

theorem float_volume_counterexample:
  "row_values (value_cols sample_columns)
     (sample_row ''2024-01-02'' ''10'' ''11'' ''9'' ''10.5'' ''1000000001'')
     = Inr (sample_valores 10 11 9 (21 / 2) 1000000001) \<and>
   process_row
     [738887 \<mapsto> \<lparr>apertura = Some (PFloat (Fin 10)), maximo = Some (PFloat (Fin 11)),
                  minimo = Some (PFloat (Fin 9)), cierre = Some (PFloat (Fin (21 / 2))),
                  volumen = Some (PFloat (Fin 1000000000))\<rparr>]
     1 (value_cols sample_columns)
     (738887, sample_row ''2024-01-02'' ''10'' ''11'' ''9'' ''10.5'' ''1000000001'') ([], 0)
     = ([], 1)"
  by (simp add: sample_value_cols sample_row_5 process_row_cases cierre_bajo_def differs_def
        sample_valores_def rel_tol_def abs_tol_def overflows_def)

text \<open>
  C4, as the code has it. For a row that survives normalisation and whose date has a stored
  row, the loop body appends the record with all five new values when \<^verbatim>\<open>diff\<close> holds of
  one of the five fields, and otherwise appends nothing and adds one to the skipped count.
  The new volume is an int and the new prices are floats. \<^verbatim>\<open>diff\<close> holds when exactly
  one value is absent; it compares two ints exactly; and as soon as one of the two values
  is a float it compares them by the tolerance of \<^verbatim>\<open>1e-9\<close>, relative or absolute: so
  a price always, and a volume against a stored float. Only an int too large for a double
  is compared exactly with a float.
\<close>

theorem update_iff_differs:
  "(row_values cs r = Inr v \<and> \<not> cierre_bajo v \<and> existing_map fecha = Some existing_row
      \<longrightarrow> process_row existing_map ticker_id cs (fecha, r) (records_to_write, skipped) =
            (if diff (apertura v) (apertura existing_row) \<or> diff (maximo v) (maximo existing_row) \<or>
                diff (minimo v) (minimo existing_row) \<or> diff (cierre v) (cierre existing_row) \<or>
                diff (volumen v) (volumen existing_row)
             then (records_to_write @ [(ticker_id, fecha, v)], skipped)
             else (records_to_write, skipped + 1))) \<and>
   (row_values cs r = Inr v
      \<longrightarrow> (\<forall>n. volumen v = Some n \<longrightarrow> (\<exists>i. n = PInt i)) \<and>
          (\<forall>n. apertura v = Some n \<or> maximo v = Some n \<or> minimo v = Some n \<or> cierre v = Some n
                 \<longrightarrow> (\<exists>f. n = PFloat f))) \<and>
   \<not> diff None None \<and> diff None (Some b) \<and> diff (Some a) None \<and>
   diff (Some (PInt i)) (Some (PInt j)) = (i \<noteq> j) \<and>
   diff (Some (PFloat (Fin x))) (Some (PFloat (Fin y))) =
     (\<not> (x = y \<or> \<bar>y - x\<bar> \<le> \<bar>y / 10 ^ 9\<bar> \<or> \<bar>y - x\<bar> \<le> \<bar>x / 10 ^ 9\<bar> \<or> \<bar>y - x\<bar> \<le> 1 / 10 ^ 9)) \<and>
   (\<not> overflows j \<longrightarrow>
      diff (Some (PFloat (Fin x))) (Some (PInt j)) =
        (\<not> (x = of_int j \<or> \<bar>of_int j - x\<bar> \<le> \<bar>of_int j / 10 ^ 9\<bar> \<or>
            \<bar>of_int j - x\<bar> \<le> \<bar>x / 10 ^ 9\<bar> \<or> \<bar>of_int j - x\<bar> \<le> 1 / 10 ^ 9))) \<and>
   (\<not> overflows i \<longrightarrow>
      diff (Some (PInt i)) (Some (PFloat (Fin y))) =
        (\<not> (of_int i = y \<or> \<bar>y - of_int i\<bar> \<le> \<bar>y / 10 ^ 9\<bar> \<or>
            \<bar>y - of_int i\<bar> \<le> \<bar>of_int i / 10 ^ 9\<bar> \<or> \<bar>y - of_int i\<bar> \<le> 1 / 10 ^ 9))) \<and>
   (overflows j \<longrightarrow> diff (Some (PFloat (Fin x))) (Some (PInt j)) = (x \<noteq> of_int j)) \<and>
   (overflows i \<longrightarrow> diff (Some (PInt i)) (Some (PFloat (Fin y))) = (of_int i \<noteq> y))"
proof (intro conjI impI)
  assume "row_values cs r = Inr v \<and> \<not> cierre_bajo v \<and> existing_map fecha = Some existing_row"
  then show "process_row existing_map ticker_id cs (fecha, r) (records_to_write, skipped) =
            (if diff (apertura v) (apertura existing_row) \<or> diff (maximo v) (maximo existing_row) \<or>
                diff (minimo v) (minimo existing_row) \<or> diff (cierre v) (cierre existing_row) \<or>
                diff (volumen v) (volumen existing_row)
             then (records_to_write @ [(ticker_id, fecha, v)], skipped)
             else (records_to_write, skipped + 1))"
    by (simp add: process_row_cases differs_def)
next
  assume h: "row_values cs r = Inr v"
  show "\<forall>n. volumen v = Some n \<longrightarrow> (\<exists>i. n = PInt i)"
    using row_values_types [OF h] by (metis is_float.elims(3))
next
  assume h: "row_values cs r = Inr v"
  show "\<forall>n. apertura v = Some n \<or> maximo v = Some n \<or> minimo v = Some n \<or> cierre v = Some n
                 \<longrightarrow> (\<exists>f. n = PFloat f)"
    using row_values_types [OF h] by (metis is_float.elims(2))
qed (simp_all add: rel_tol_def abs_tol_def)

theorem update_iff_differs_witness:
  "row_values (value_cols sample_columns)
     (sample_row ''2024-01-02'' ''10'' ''11'' ''9'' ''10.5'' ''100'')
     = Inr (sample_valores 10 11 9 (21 / 2) 100) \<and>
   \<not> cierre_bajo (sample_valores 10 11 9 (21 / 2) 100) \<and>
   [738887 \<mapsto> sample_valores 10 11 9 (21 / 2) 100] (738887::nat)
     = Some (sample_valores 10 11 9 (21 / 2) 100) \<and>
   process_row [738887 \<mapsto> sample_valores 10 11 9 (21 / 2) 100] 1 (value_cols sample_columns)
     (738887, sample_row ''2024-01-02'' ''10'' ''11'' ''9'' ''10.5'' ''100'') ([], 0) = ([], 1) \<and>
   [738887 \<mapsto> sample_valores 10 11 9 (52 / 5) 100] (738887::nat)
     = Some (sample_valores 10 11 9 (52 / 5) 100) \<and>
   process_row [738887 \<mapsto> sample_valores 10 11 9 (52 / 5) 100] 1 (value_cols sample_columns)
     (738887, sample_row ''2024-01-02'' ''10'' ''11'' ''9'' ''10.5'' ''100'') ([], 0)
     = ([(1, 738887, sample_valores 10 11 9 (21 / 2) 100)], 0) \<and>
   volumen (sample_valores 10 11 9 (21 / 2) 100) = Some (PInt 100) \<and>
   (\<exists>i. PInt 100 = PInt i) \<and>
   \<not> overflows 1000000001 \<and>
   \<not> diff (Some (PInt 1000000001)) (Some (PFloat (Fin 1000000000))) \<and>
   diff (Some (PFloat (Fin (21 / 2)))) (Some (PInt 1000000001)) \<and>
   overflows (10 ^ 400) \<and>
   diff (Some (PFloat (Fin 1))) (Some (PInt (10 ^ 400))) \<and>
   diff (Some (PInt (10 ^ 400))) (Some (PFloat (Fin 1)))"
proof -
  let ?r = "sample_row ''2024-01-02'' ''10'' ''11'' ''9'' ''10.5'' ''100''"
  let ?v = "sample_valores 10 11 9 (21 / 2) 100"
  let ?e = "sample_valores 10 11 9 (52 / 5) 100"
  have a: "row_values (value_cols sample_columns) ?r = Inr ?v"
    by (simp add: sample_value_cols sample_row_1)
  have b: "\<not> cierre_bajo ?v"
    by (simp add: cierre_bajo_def sample_valores_def)
  have c: "[738887 \<mapsto> ?v] (738887::nat) = Some ?v" by simp
  have c': "[738887 \<mapsto> ?e] (738887::nat) = Some ?e" by simp
  have d: "process_row [738887 \<mapsto> ?v] 1 (value_cols sample_columns) (738887, ?r) ([], 0) =
             (if diff (apertura ?v) (apertura ?v) \<or> diff (maximo ?v) (maximo ?v) \<or>
                 diff (minimo ?v) (minimo ?v) \<or> diff (cierre ?v) (cierre ?v) \<or>
                 diff (volumen ?v) (volumen ?v)
              then ([] @ [(1, 738887, ?v)], 0) else ([], 0 + 1))"
    using update_iff_differs [where existing_map = "[738887 \<mapsto> ?v]" and fecha = 738887
            and existing_row = ?v and ticker_id = 1 and records_to_write = "[]" and skipped = 0,
            THEN conjunct1, rule_format, OF conjI [OF a conjI [OF b c]]] .
  have d': "process_row [738887 \<mapsto> ?e] 1 (value_cols sample_columns) (738887, ?r) ([], 0) =
             (if diff (apertura ?v) (apertura ?e) \<or> diff (maximo ?v) (maximo ?e) \<or>
                 diff (minimo ?v) (minimo ?e) \<or> diff (cierre ?v) (cierre ?e) \<or>
                 diff (volumen ?v) (volumen ?e)
              then ([] @ [(1, 738887, ?v)], 0) else ([], 0 + 1))"
    using update_iff_differs [where existing_map = "[738887 \<mapsto> ?e]" and fecha = 738887
            and existing_row = ?e and ticker_id = 1 and records_to_write = "[]" and skipped = 0,
            THEN conjunct1, rule_format, OF conjI [OF a conjI [OF b c']]] .
  have f: "volumen ?v = Some (PInt 100)" by (simp add: sample_valores_def)
  have g: "\<exists>i. PInt 100 = PInt i"
    using update_iff_differs [THEN conjunct2, THEN conjunct1, rule_format, OF a, THEN conjunct1,
            rule_format, OF f] .
  have d1: "process_row [738887 \<mapsto> ?v] 1 (value_cols sample_columns) (738887, ?r) ([], 0)
              = ([], 1)"
    unfolding d by (simp add: sample_valores_def rel_tol_def abs_tol_def)
  have d2: "process_row [738887 \<mapsto> ?e] 1 (value_cols sample_columns) (738887, ?r) ([], 0)
              = ([(1, 738887, ?v)], 0)"
    unfolding d' by (simp add: sample_valores_def rel_tol_def abs_tol_def)
  have n: "\<not> overflows 1000000001"
    by (simp add: overflows_def)
  have o: "overflows (10 ^ 400)"
    by (simp add: overflows_def)
  have k1: "\<not> diff (Some (PInt 1000000001)) (Some (PFloat (Fin 1000000000)))"
    using update_iff_differs [where i = 1000000001 and y = 1000000000,
            THEN conjunct2, THEN conjunct2, THEN conjunct2, THEN conjunct2, THEN conjunct2,
            THEN conjunct2, THEN conjunct2, THEN conjunct2, THEN conjunct1, rule_format, OF n]
    by simp
  have k2: "diff (Some (PFloat (Fin (21 / 2)))) (Some (PInt 1000000001))"
    using update_iff_differs [where j = 1000000001 and x = "21 / 2",
            THEN conjunct2, THEN conjunct2, THEN conjunct2, THEN conjunct2, THEN conjunct2,
            THEN conjunct2, THEN conjunct2, THEN conjunct1, rule_format, OF n]
    by simp
  have k3: "diff (Some (PFloat (Fin 1))) (Some (PInt (10 ^ 400)))"
    using update_iff_differs [where j = "10 ^ 400" and x = 1,
            THEN conjunct2, THEN conjunct2, THEN conjunct2, THEN conjunct2, THEN conjunct2,
            THEN conjunct2, THEN conjunct2, THEN conjunct2, THEN conjunct2, THEN conjunct1,
            rule_format, OF o]
    by simp
  have k4: "diff (Some (PInt (10 ^ 400))) (Some (PFloat (Fin 1)))"
    using update_iff_differs [where i = "10 ^ 400" and y = 1,
            THEN conjunct2, THEN conjunct2, THEN conjunct2, THEN conjunct2, THEN conjunct2,
            THEN conjunct2, THEN conjunct2, THEN conjunct2, THEN conjunct2, THEN conjunct2,
            rule_format, OF o]
    by simp
  show ?thesis by (intro conjI a b c c' d1 d2 f g n o k1 k2 k3 k4)
qed

section \<open>The second pass\<close>

lemma isclose_refl: "f \<noteq> NaN \<Longrightarrow> isclose f f"
  by (cases f) simp_all

lemma diff_refl: "x \<noteq> Some (PFloat NaN) \<Longrightarrow> \<not> diff x x"
proof (cases x)
  case None
  then show ?thesis by simp
next
  case (Some a)
  assume "x \<noteq> Some (PFloat NaN)"
  with Some show ?thesis by (cases a) (simp_all add: isclose_refl)
qed

lemma differs_refl: "no_nan v \<Longrightarrow> \<not> differs v v"
  by (simp add: no_nan_def differs_def diff_refl)

text \<open>What the first pass writes, and what it leaves in place.\<close>

lemma fold_process_row_mono:
  "set ws \<subseteq> set (fst (fold (process_row em tid cs) drs (ws, sk)))"
proof (induction drs arbitrary: ws sk)
  case Nil
  then show ?case by simp
next
  case (Cons dr drs)
  obtain d r where dr: "dr = (d, r)" by (cases dr)
  obtain ws' sk' where st: "process_row em tid cs (d, r) (ws, sk) = (ws', sk')"
    by (cases "process_row em tid cs (d, r) (ws, sk)")
  have "set ws \<subseteq> set ws'"
    using st by (auto simp: process_row_cases split: sum.splits if_splits)
  moreover have "set ws' \<subseteq> set (fst (fold (process_row em tid cs) drs (ws', sk')))"
    by (rule Cons.IH)
  ultimately show ?case by (simp add: dr st)
qed

lemma fold_process_row_origin:
  "w \<in> set (fst (fold (process_row em tid cs) drs (ws, sk))) \<Longrightarrow>
   w \<in> set ws \<or> (\<exists>d r v. (d, r) \<in> set drs \<and> row_values cs r = Inr v \<and> w = (tid, d, v))"
proof (induction drs arbitrary: ws sk)
  case Nil
  then show ?case by simp
next
  case (Cons dr drs)
  obtain d r where dr: "dr = (d, r)" by (cases dr)
  obtain ws' sk' where st: "process_row em tid cs (d, r) (ws, sk) = (ws', sk')"
    by (cases "process_row em tid cs (d, r) (ws, sk)")
  have step: "w \<in> set ws' \<Longrightarrow> w \<in> set ws \<or> (\<exists>v. row_values cs r = Inr v \<and> w = (tid, d, v))"
    using st by (auto simp: process_row_cases split: sum.splits if_splits)
  from Cons.prems have "w \<in> set (fst (fold (process_row em tid cs) drs (ws', sk')))"
    by (simp add: dr st)
  then have "w \<in> set ws' \<or> (\<exists>d r v. (d, r) \<in> set drs \<and> row_values cs r = Inr v \<and> w = (tid, d, v))"
    by (rule Cons.IH)
  then show ?case using step dr by auto
qed

lemma fold_process_row_settled:
  "(d, r) \<in> set drs \<Longrightarrow> row_values cs r = Inr v \<Longrightarrow> \<not> cierre_bajo v \<Longrightarrow>
   (tid, d, v) \<in> set (fst (fold (process_row em tid cs) drs (ws, sk))) \<or>
   (\<exists>e. em d = Some e \<and> \<not> differs v e)"
proof (induction drs arbitrary: ws sk)
  case Nil
  then show ?case by simp
next
  case (Cons dr drs)
  obtain d' r' where dr: "dr = (d', r')" by (cases dr)
  obtain ws' sk' where st: "process_row em tid cs (d', r') (ws, sk) = (ws', sk')"
    by (cases "process_row em tid cs (d', r') (ws, sk)")
  show ?case
  proof (cases "(d, r) = (d', r')")
    case True
    have "(tid, d, v) \<in> set ws' \<or> (\<exists>e. em d = Some e \<and> \<not> differs v e)"
      using st True Cons.prems(2,3) by (auto simp: process_row_cases split: if_splits)
    moreover have "set ws' \<subseteq> set (fst (fold (process_row em tid cs) drs (ws', sk')))"
      by (rule fold_process_row_mono)
    ultimately show ?thesis by (auto simp: dr st)
  next
    case False
    with Cons.prems(1) dr have "(d, r) \<in> set drs" by auto
    then show ?thesis using Cons.IH Cons.prems(2,3) by (simp add: dr st)
  qed
qed

text \<open>The table after the write set has been sent.\<close>

lemma upsert_record_key:
  "upsert_record (tid, d, v) t (tid, d) = Some v"
  by (auto simp: upsert_record_def split: option.splits)

lemma upsert_record_other:
  "k \<noteq> (tid, d) \<Longrightarrow> upsert_record (tid, d, v) t k = t k"
  by (auto simp: upsert_record_def split: option.splits)

lemma execute_values_key:
  "\<forall>w\<in>set ws. (fst w, fst (snd w)) = k \<longrightarrow> snd (snd w) = v \<Longrightarrow>
   t k = Some v \<or> (\<exists>w\<in>set ws. (fst w, fst (snd w)) = k) \<Longrightarrow>
   execute_values t ws k = Some v"
proof (induction ws arbitrary: t)
  case Nil
  then show ?case by (simp add: execute_values_def)
next
  case (Cons w ws)
  obtain tid d v' where w: "w = (tid, d, v')" by (cases w)
  have rest: "\<forall>w\<in>set ws. (fst w, fst (snd w)) = k \<longrightarrow> snd (snd w) = v"
    using Cons.prems(1) by simp
  have ev: "execute_values t (w # ws) = execute_values (upsert_record w t) ws"
    by (simp add: execute_values_def)
  show ?case
  proof (cases "k = (tid, d)")
    case True
    with Cons.prems(1) w have "v' = v" by simp
    then have "upsert_record w t k = Some v"
      using True w by (simp add: upsert_record_key)
    then show ?thesis unfolding ev using rest Cons.IH by blast
  next
    case False
    then have "upsert_record w t k = t k"
      using w by (simp add: upsert_record_other)
    moreover have "t k = Some v \<or> (\<exists>w\<in>set ws. (fst w, fst (snd w)) = k)"
      using Cons.prems(2) False w by auto
    ultimately show ?thesis unfolding ev using rest Cons.IH [of "upsert_record w t"] by auto
  qed
qed

text \<open>The second pass, when every surviving row finds its values stored.\<close>

lemma fold_process_row_all_skipped:
  "\<forall>(d, r)\<in>set drs. \<forall>v. row_values cs r = Inr v \<and> \<not> cierre_bajo v
      \<longrightarrow> (\<exists>e. em d = Some e \<and> \<not> differs v e) \<Longrightarrow>
   fold (process_row em tid cs) drs (ws, sk) =
     (ws, sk + length (filter (\<lambda>dr. survives cs (snd dr)) drs))"
proof (induction drs arbitrary: sk)
  case Nil
  then show ?case by simp
next
  case (Cons dr drs)
  obtain d r where dr: "dr = (d, r)" by (cases dr)
  have here: "\<forall>v. row_values cs r = Inr v \<and> \<not> cierre_bajo v
      \<longrightarrow> (\<exists>e. em d = Some e \<and> \<not> differs v e)"
    using Cons.prems dr by auto
  have step: "process_row em tid cs (d, r) (ws, sk) =
                (ws, sk + (if survives cs r then 1 else 0))"
    using here by (auto simp: process_row_cases survives_def split: sum.splits)
  have rest: "\<forall>(d, r)\<in>set drs. \<forall>v. row_values cs r = Inr v \<and> \<not> cierre_bajo v
      \<longrightarrow> (\<exists>e. em d = Some e \<and> \<not> differs v e)"
    using Cons.prems by simp
  show ?case
    using Cons.IH [OF rest] by (simp add: dr step)
qed


lemma upsert_candidates:
  "upsert_historico_selectivo td cur tid (Some df) =
     (if candidate_rows td df = [] then ([], 0, None)
      else (fst (fold (process_row
                        (\<lambda>d. if d \<in> fst ` set (candidate_rows td df) then cur (tid, d) else None)
                        tid (value_cols (columns df)))
                   (candidate_rows td df) ([], 0)),
            snd (fold (process_row
                        (\<lambda>d. if d \<in> fst ` set (candidate_rows td df) then cur (tid, d) else None)
                        tid (value_cols (columns df)))
                   (candidate_rows td df) ([], 0)),
            Some (Max (fst ` set (candidate_rows td df)))))"
  by (simp add: upsert_unfold candidate_rows_def)

lemma second_pass_lookup:
  assumes dist: "distinct (map fst drs)"
    and mem: "(d, r) \<in> set drs"
    and val: "row_values cs r = Inr v" "\<not> cierre_bajo v"
    and nn: "no_nan v"
    and ws: "ws = fst (fold (process_row (\<lambda>d. if d \<in> fst ` set drs then cur (tid, d) else None)
                               tid cs) drs ([], 0))"
  shows "\<exists>e. execute_values cur ws (tid, d) = Some e \<and> \<not> differs v e"
proof -
  let ?em = "\<lambda>d. if d \<in> fst ` set drs then cur (tid, d) else None"
  have uniq: "\<forall>w\<in>set ws. (fst w, fst (snd w)) = (tid, d) \<longrightarrow> snd (snd w) = v"
  proof (intro ballI impI)
    fix w
    assume w: "w \<in> set ws" and k: "(fst w, fst (snd w)) = (tid, d)"
    from w have "w \<in> set [] \<or>
        (\<exists>d' r' v'. (d', r') \<in> set drs \<and> row_values cs r' = Inr v' \<and> w = (tid, d', v'))"
      unfolding ws by (rule fold_process_row_origin)
    then obtain d' r' v' where o: "(d', r') \<in> set drs" "row_values cs r' = Inr v'" "w = (tid, d', v')"
      by auto
    from k o(3) have "d' = d" by simp
    with o(1) mem dist have "r' = r" by (metis eq_key_imp_eq_value)
    with o(2) val(1) have "v' = v" by simp
    with o(3) show "snd (snd w) = v" by simp
  qed
  show ?thesis
  proof (cases "(tid, d, v) \<in> set ws")
    case True
    then have "\<exists>w\<in>set ws. (fst w, fst (snd w)) = (tid, d)" by force
    then have "execute_values cur ws (tid, d) = Some v"
      using uniq execute_values_key by blast
    then show ?thesis using nn differs_refl by blast
  next
    case False
    have "(tid, d, v) \<in> set ws \<or> (\<exists>e. ?em d = Some e \<and> \<not> differs v e)"
      unfolding ws using mem val by (rule fold_process_row_settled)
    with False obtain e where e: "?em d = Some e" "\<not> differs v e" by blast
    from mem have "d \<in> fst ` set drs" by force
    with e(1) have c: "cur (tid, d) = Some e" by simp
    have none: "\<forall>w\<in>set ws. (fst w, fst (snd w)) \<noteq> (tid, d)"
    proof
      fix w
      assume w: "w \<in> set ws"
      show "(fst w, fst (snd w)) \<noteq> (tid, d)"
      proof
        assume k: "(fst w, fst (snd w)) = (tid, d)"
        with uniq w have "snd (snd w) = v" by blast
        with k have "w = (tid, d, v)" by (cases w) auto
        with w False show False by simp
      qed
    qed
    have "execute_values cur ws (tid, d) = Some e"
      using none c by (intro execute_values_key) auto
    with e(2) show ?thesis by blast
  qed
qed

text \<open>
  C5, as the code has it. Let the rows with a date have pairwise distinct dates, and let no
  surviving row have nan among its normalised values. Then a second pass over the same data
  frame, against the table the write set of the first pass has been sent to, writes nothing
  and skips as many rows as there are distinct dates among the surviving rows.
\<close>

theorem second_pass_skips_all:
  assumes "distinct (map fst (candidate_rows to_datetime df))"
    and "\<forall>dr\<in>set (candidate_rows to_datetime df).
           \<forall>v. row_values (value_cols (columns df)) (snd dr) = Inr v \<and> \<not> cierre_bajo v \<longrightarrow> no_nan v"
  shows "fst (upsert_historico_selectivo to_datetime
                (execute_values cur
                   (fst (upsert_historico_selectivo to_datetime cur ticker_id (Some df))))
                ticker_id (Some df)) = [] \<and>
         fst (snd (upsert_historico_selectivo to_datetime
                (execute_values cur
                   (fst (upsert_historico_selectivo to_datetime cur ticker_id (Some df))))
                ticker_id (Some df))) =
           length (remdups (map fst (filter (\<lambda>dr. survives (value_cols (columns df)) (snd dr))
                                        (candidate_rows to_datetime df))))"
proof (cases "candidate_rows to_datetime df = []")
  case True
  then show ?thesis by (simp add: upsert_candidates)
next
  case False
  let ?drs = "candidate_rows to_datetime df"
  let ?cs = "value_cols (columns df)"
  let ?ws = "fst (fold (process_row (\<lambda>d. if d \<in> fst ` set ?drs then cur (ticker_id, d) else None)
                          ticker_id ?cs) ?drs ([], 0))"
  let ?em2 = "\<lambda>d. if d \<in> fst ` set ?drs then execute_values cur ?ws (ticker_id, d) else None"
  have first: "fst (upsert_historico_selectivo to_datetime cur ticker_id (Some df)) = ?ws"
    using False by (simp add: upsert_candidates)
  have found: "\<forall>(d, r)\<in>set ?drs. \<forall>v. row_values ?cs r = Inr v \<and> \<not> cierre_bajo v
      \<longrightarrow> (\<exists>e. ?em2 d = Some e \<and> \<not> differs v e)"
  proof (intro ballI, clarify)
    fix d r v
    assume mem: "(d, r) \<in> set ?drs" and val: "row_values ?cs r = Inr v" "\<not> cierre_bajo v"
    from assms(2) mem val have nn: "no_nan v" by force
    have "\<exists>e. execute_values cur ?ws (ticker_id, d) = Some e \<and> \<not> differs v e"
      using assms(1) mem val nn by (rule second_pass_lookup) simp
    moreover from mem have "d \<in> fst ` set ?drs" by force
    ultimately show "\<exists>e. ?em2 d = Some e \<and> \<not> differs v e" by simp
  qed
  have second: "fold (process_row ?em2 ticker_id ?cs) ?drs ([], 0) =
                  ([], 0 + length (filter (\<lambda>dr. survives ?cs (snd dr)) ?drs))"
    using found by (rule fold_process_row_all_skipped)
  have "distinct (map fst (filter (\<lambda>dr. survives ?cs (snd dr)) ?drs))"
    using assms(1) by (simp add: distinct_map_filter)
  then have len: "length (remdups (map fst (filter (\<lambda>dr. survives ?cs (snd dr)) ?drs))) =
                    length (filter (\<lambda>dr. survives ?cs (snd dr)) ?drs)"
    by (simp add: distinct_remdups_id)
  show ?thesis
    unfolding first using False second len by (simp add: upsert_candidates)
qed


lemma sample_row_4:
  "row_values (Some ''Apertura'', Some ''Maximo'', Some ''Minimo'', Some ''Cierre'', Some ''Volumen'')
     (sample_row f ''nan'' ''11'' ''9'' ''10.5'' ''100'') =
   Inr \<lparr>apertura = Some (PFloat NaN), maximo = Some (PFloat (Fin 11)),
        minimo = Some (PFloat (Fin 9)), cierre = Some (PFloat (Fin (21 / 2))),
        volumen = Some (PInt 100)\<rparr>"
  by (simp add: row_values_def field_def sample_row_def eval_text)

lemmas eval_passes =
  eval_sample sample_row_4 candidate_rows_def execute_values_def upsert_record_def survives_def
  no_nan_def

theorem second_pass_skips_all_witness:
  "distinct (map fst (candidate_rows sample_to_datetime
      \<lparr>columns = sample_columns,
       rows = [sample_row ''2024-01-02'' ''10'' ''11'' ''9'' ''10.5'' ''100'',
               sample_row ''2024-01-03'' ''11'' ''12'' ''10'' ''11.5'' ''200'']\<rparr>)) \<and>
   row_values (value_cols sample_columns)
     (sample_row ''2024-01-02'' ''10'' ''11'' ''9'' ''10.5'' ''100'')
     = Inr (sample_valores 10 11 9 (21 / 2) 100) \<and>
   no_nan (sample_valores 10 11 9 (21 / 2) 100) \<and>
   row_values (value_cols sample_columns)
     (sample_row ''2024-01-03'' ''11'' ''12'' ''10'' ''11.5'' ''200'')
     = Inr (sample_valores 11 12 10 (23 / 2) 200) \<and>
   no_nan (sample_valores 11 12 10 (23 / 2) 200) \<and>
   upsert_historico_selectivo sample_to_datetime
     [(1, 738887) \<mapsto> sample_valores 10 11 9 (21 / 2) 100] 1
     (Some \<lparr>columns = sample_columns,
            rows = [sample_row ''2024-01-02'' ''10'' ''11'' ''9'' ''10.5'' ''100'',
                    sample_row ''2024-01-03'' ''11'' ''12'' ''10'' ''11.5'' ''200'']\<rparr>)
     = ([(1, 738888, sample_valores 11 12 10 (23 / 2) 200)], 1, Some 738888) \<and>
   fst (upsert_historico_selectivo sample_to_datetime
     (execute_values [(1, 738887) \<mapsto> sample_valores 10 11 9 (21 / 2) 100]
        [(1, 738888, sample_valores 11 12 10 (23 / 2) 200)]) 1
     (Some \<lparr>columns = sample_columns,
            rows = [sample_row ''2024-01-02'' ''10'' ''11'' ''9'' ''10.5'' ''100'',
                    sample_row ''2024-01-03'' ''11'' ''12'' ''10'' ''11.5'' ''200'']\<rparr>)) = [] \<and>
   fst (snd (upsert_historico_selectivo sample_to_datetime
     (execute_values [(1, 738887) \<mapsto> sample_valores 10 11 9 (21 / 2) 100]
        [(1, 738888, sample_valores 11 12 10 (23 / 2) 200)]) 1
     (Some \<lparr>columns = sample_columns,
            rows = [sample_row ''2024-01-02'' ''10'' ''11'' ''9'' ''10.5'' ''100'',
                    sample_row ''2024-01-03'' ''11'' ''12'' ''10'' ''11.5'' ''200'']\<rparr>))) = 2"
proof -
  let ?df = "\<lparr>columns = sample_columns,
       rows = [sample_row ''2024-01-02'' ''10'' ''11'' ''9'' ''10.5'' ''100'',
               sample_row ''2024-01-03'' ''11'' ''12'' ''10'' ''11.5'' ''200'']\<rparr>"
  let ?cur = "[(1::int, 738887::nat) \<mapsto> sample_valores 10 11 9 (21 / 2) 100]"
  have c: "candidate_rows sample_to_datetime ?df =
             [(738887, sample_row ''2024-01-02'' ''10'' ''11'' ''9'' ''10.5'' ''100''),
              (738888, sample_row ''2024-01-03'' ''11'' ''12'' ''10'' ''11.5'' ''200'')]"
    by (simp add: candidate_rows_def sample_fecha_col truthy_def dated_rows_def
          List.map_filter_def sample_dates)
  have h1: "distinct (map fst (candidate_rows sample_to_datetime ?df))"
    unfolding c by simp
  have h2: "\<forall>dr\<in>set (candidate_rows sample_to_datetime ?df).
      \<forall>v. row_values (value_cols (columns ?df)) (snd dr) = Inr v \<and> \<not> cierre_bajo v \<longrightarrow> no_nan v"
    unfolding c
    by (auto simp: sample_value_cols sample_row_1 sample_row_2 no_nan_def sample_valores_def)
  have first: "upsert_historico_selectivo sample_to_datetime ?cur 1 (Some ?df)
     = ([(1, 738888, sample_valores 11 12 10 (23 / 2) 200)], 1, Some 738888)"
    by (simp add: eval_sample)
  have n: "length (remdups (map fst (filter (\<lambda>dr. survives (value_cols (columns ?df)) (snd dr))
                                        (candidate_rows sample_to_datetime ?df)))) = 2"
    unfolding c
    by (simp add: survives_def sample_value_cols sample_row_1 sample_row_2 cierre_bajo_def
          sample_valores_def)
  note t = second_pass_skips_all [OF h1 h2, of ?cur 1, unfolded first n]
  have v1: "row_values (value_cols sample_columns)
     (sample_row ''2024-01-02'' ''10'' ''11'' ''9'' ''10.5'' ''100'')
     = Inr (sample_valores 10 11 9 (21 / 2) 100)"
    by (simp add: sample_value_cols sample_row_1)
  have v2: "row_values (value_cols sample_columns)
     (sample_row ''2024-01-03'' ''11'' ''12'' ''10'' ''11.5'' ''200'')
     = Inr (sample_valores 11 12 10 (23 / 2) 200)"
    by (simp add: sample_value_cols sample_row_2)
  have n1: "no_nan (sample_valores 10 11 9 (21 / 2) 100)"
    by (simp add: no_nan_def sample_valores_def)
  have n2: "no_nan (sample_valores 11 12 10 (23 / 2) 200)"
    by (simp add: no_nan_def sample_valores_def)
  show ?thesis
    using h1 v1 n1 v2 n2 first t by simp
qed

text \<open>
  Two rows with one date, both equal to the stored row: the second pass skips two rows for
  one date. One row whose opening price is the text \<^verbatim>\<open>nan\<close>: the second pass writes it
  again.
\<close>

theorem second_pass_counterexample:
  "fst (snd (upsert_historico_selectivo sample_to_datetime
     (execute_values [(1, 738887) \<mapsto> sample_valores 10 11 9 (21 / 2) 100]
        (fst (upsert_historico_selectivo sample_to_datetime
                [(1, 738887) \<mapsto> sample_valores 10 11 9 (21 / 2) 100] 1
                (Some \<lparr>columns = sample_columns,
                       rows = [sample_row ''2024-01-02'' ''10'' ''11'' ''9'' ''10.5'' ''100'',
                               sample_row ''2024-01-02'' ''10'' ''11'' ''9'' ''10.5'' ''100'']\<rparr>)))) 1
     (Some \<lparr>columns = sample_columns,
            rows = [sample_row ''2024-01-02'' ''10'' ''11'' ''9'' ''10.5'' ''100'',
                    sample_row ''2024-01-02'' ''10'' ''11'' ''9'' ''10.5'' ''100'']\<rparr>))) = 2 \<and>
   length (remdups (map fst (candidate_rows sample_to_datetime
     \<lparr>columns = sample_columns,
      rows = [sample_row ''2024-01-02'' ''10'' ''11'' ''9'' ''10.5'' ''100'',
              sample_row ''2024-01-02'' ''10'' ''11'' ''9'' ''10.5'' ''100'']\<rparr>))) = 1 \<and>
   fst (upsert_historico_selectivo sample_to_datetime
     (execute_values Map.empty
        (fst (upsert_historico_selectivo sample_to_datetime Map.empty 1
                (Some \<lparr>columns = sample_columns,
                       rows = [sample_row ''2024-01-02'' ''nan'' ''11'' ''9'' ''10.5'' ''100'']\<rparr>)))) 1
     (Some \<lparr>columns = sample_columns,
            rows = [sample_row ''2024-01-02'' ''nan'' ''11'' ''9'' ''10.5'' ''100'']\<rparr>))
     = [(1, 738887, \<lparr>apertura = Some (PFloat NaN), maximo = Some (PFloat (Fin 11)),
                      minimo = Some (PFloat (Fin 9)), cierre = Some (PFloat (Fin (21 / 2))),
                      volumen = Some (PInt 100)\<rparr>)]"
  by (simp add: eval_passes)

section \<open>Reading the text of a result again\<close>

lemma point_up_numeral:
  "point_up (numeral n) r k = (if r < 1 then (r, k) else point_up (pred_numeral n) (r / 10) (k + 1))"
  by (simp add: numeral_eq_Suc)

lemma point_down_numeral:
  "point_down (numeral n) r k =
     (if 1 / 10 \<le> r then (r, k) else point_down (pred_numeral n) (r * 10) (k - 1))"
  by (simp add: numeral_eq_Suc)

lemma mantissa_digits_numeral:
  "mantissa_digits (numeral n) m =
     (if m = 0 then []
      else digit_char (nat \<lfloor>10 * m\<rfloor>) # mantissa_digits (pred_numeral n) (10 * m - of_int \<lfloor>10 * m\<rfloor>))"
  by (simp add: numeral_eq_Suc)

lemma replicate_numeral_char:
  "replicate (numeral n) (c::char) = c # replicate (pred_numeral n) c"
  by (simp add: numeral_eq_Suc)

lemmas eval_str =
  point_up_numeral point_down_numeral mantissa_digits_numeral replicate_numeral_char point_def
  digit_char_def repr_fixed_def repr_exp_def exp_digits_def

lemma digit_char_digit: "is_digit (digit_char d)"
proof -
  have "d mod 10 < length ''0123456789''" by simp
  then have "''0123456789'' ! (d mod 10) \<in> set ''0123456789''" by (rule nth_mem)
  then show ?thesis by (simp only: is_digit_def digit_char_def)
qed

lemma mantissa_digits_chars: "c \<in> set (mantissa_digits n m) \<Longrightarrow> is_digit c"
proof (induction n arbitrary: m)
  case 0
  then show ?case by simp
next
  case (Suc n)
  show ?case
  proof (cases "m = 0")
    case True
    with Suc.prems show ?thesis by simp
  next
    case False
    with Suc.prems have "c = digit_char (nat \<lfloor>10 * m\<rfloor>) \<or>
        c \<in> set (mantissa_digits n (10 * m - of_int \<lfloor>10 * m\<rfloor>))"
      by simp
    then show ?thesis using digit_char_digit Suc.IH by blast
  qed
qed

lemma repr_fixed_chars:
  assumes "\<And>c. c \<in> set ds \<Longrightarrow> is_digit c" and "c \<in> set (repr_fixed ds k)"
  shows "is_digit c \<or> c = CHR ''.''"
proof -
  have z: "is_digit CHR ''0''" by (simp add: is_digit_def)
  have "c \<in> set ds \<or> c = CHR ''0'' \<or> c = CHR ''.''"
    using assms(2) by (auto simp: repr_fixed_def split: if_splits dest: in_set_takeD in_set_dropD)
  then show ?thesis using assms(1) z by blast
qed

lemma exp_digits_chars: "c \<in> set (exp_digits n) \<Longrightarrow> is_digit c"
proof -
  assume h: "c \<in> set (exp_digits n)"
  have z: "is_digit CHR ''0''" by (simp add: is_digit_def)
  from h have "c = CHR ''0'' \<or> c = digit_char n \<or> c = digit_char (n div 10) \<or>
      c = digit_char (n div 100)"
    by (auto simp: exp_digits_def split: if_splits)
  then show ?thesis using z digit_char_digit by blast
qed

lemma repr_exp_chars:
  assumes "\<And>c. c \<in> set ds \<Longrightarrow> is_digit c" and "c \<in> set (repr_exp ds k)"
  shows "is_digit c \<or> c \<in> set ''.e+-''"
proof -
  have "c \<in> set ds \<or> c \<in> set (exp_digits (nat \<bar>k - 1\<bar>)) \<or> c \<in> set ''.e+-''"
    using assms(2) by (cases ds) (auto simp: repr_exp_def split: if_splits)
  then show ?thesis using assms(1) exp_digits_chars by blast
qed

lemma py_str_chars:
  assumes "c \<in> set (py_str v)"
  shows "is_digit c \<or> c \<in> set ''.e+-infa''"
proof (cases v)
  case (Fin r)
  obtain m k where p: "point \<bar>r\<bar> = (m, k)" by (cases "point \<bar>r\<bar>")
  have z: "is_digit CHR ''0''" by (simp add: is_digit_def)
  from assms have "c = CHR ''0'' \<or> c = CHR ''.'' \<or> c = CHR ''-'' \<or>
      c \<in> set (repr_exp (mantissa_digits 17 m) k) \<or>
      c \<in> set (repr_fixed (mantissa_digits 17 m) k)"
    unfolding Fin by (auto simp: p split: if_splits)
  moreover have "c \<in> set (repr_exp (mantissa_digits 17 m) k) \<Longrightarrow> is_digit c \<or> c \<in> set ''.e+-''"
    using repr_exp_chars mantissa_digits_chars by blast
  moreover have "c \<in> set (repr_fixed (mantissa_digits 17 m) k) \<Longrightarrow> is_digit c \<or> c = CHR ''.''"
    using repr_fixed_chars mantissa_digits_chars by blast
  ultimately show ?thesis using z by auto
next
  case PInf
  with assms show ?thesis by auto
next
  case NInf
  with assms show ?thesis by auto
next
  case NaN
  with assms show ?thesis by auto
qed

lemma py_str_no_comma: "CHR '','' \<notin> set (py_str v)"
  using py_str_chars [of "CHR '',''" v] by (auto simp: is_digit_def)

lemma py_str_no_space: "c \<in> set (py_str v) \<Longrightarrow> \<not> is_space c"
  using py_str_chars [of c v] by (auto simp: is_digit_def is_space_def)

lemma dropWhile_none: "\<forall>c\<in>set t. \<not> P c \<Longrightarrow> dropWhile P t = t"
  by (cases t) simp_all

lemma strip_id: "\<forall>c\<in>set t. \<not> is_space c \<Longrightarrow> strip t = t"
  by (simp add: strip_def dropWhile_none)

lemma disambiguate_plain:
  "CHR '','' \<notin> set t \<Longrightarrow> CHR ''.'' \<notin> set t \<Longrightarrow> disambiguate t = t"
  by (simp add: disambiguate_def Let_def)

lemma disambiguate_short_fraction:
  assumes "CHR '','' \<notin> set a" "CHR ''.'' \<notin> set a" "CHR '','' \<notin> set b" "CHR ''.'' \<notin> set b"
    and "length b \<le> 3"
  shows "disambiguate (a @ CHR ''.'' # b) = a @ CHR ''.'' # b"
proof (cases "a = []")
  case True
  have "count_list (CHR ''.'' # b) CHR ''.'' = 1"
    using assms by (simp add: count_list_zero)
  moreover have "rfind (CHR ''.'' # b) CHR ''.'' = 0"
    using rfind_last [of "CHR ''.''" b "[]"] assms(4) by simp
  ultimately show ?thesis
    using True assms by (simp add: disambiguate_def Let_def)
next
  case False
  then show ?thesis using assms by (simp add: disambiguate_one_dot)
qed

lemma parse_number_float:
  "parse_number (RStr s) False = Inr (Some (PFloat v)) \<Longrightarrow> \<not> float_less v (Fin 0)"
  by (auto simp: parse_number_def to_number_def Let_def
        split: if_splits option.splits dest: finish_not_negative)

lemma py_str_examples:
  "py_str (Fin 20390) = ''20390.0''"
  "py_str (Fin (- 41 / 2)) = ''-20.5''"
  "py_str (Fin (1 / 10000)) = ''0.0001''"
  "py_str (Fin (1 / 100000)) = ''1e-05''"
  "py_str (Fin (10 ^ 15)) = ''1000000000000000.0''"
  "py_str (Fin (15 * 10 ^ 15)) = ''1.5e+16''"
  by (simp_all add: eval_str)

lemma py_float_not_sign: "py_float [] = None" "py_float ''-'' = None"
  by (simp_all add: eval_text)

text \<open>
  C7, as the code has it. Let \<^verbatim>\<open>parse_number\<close> read a string as the float \<open>v\<close>, and let
  the text of \<open>v\<close> read back as \<open>v\<close>, as the text Python writes does. When that text has no
  point, or at most three characters after its point, \<^verbatim>\<open>parse_number\<close> reads it as \<open>v\<close>
  again.
\<close>

theorem reparse_of_rendering:
  assumes "parse_number (RStr s) False = Inr (Some (PFloat v))"
    and "py_float (py_str v) = Some v"
    and "CHR ''.'' \<notin> set (py_str v) \<or>
         (\<exists>a b. py_str v = a @ CHR ''.'' # b \<and> CHR ''.'' \<notin> set a \<and> CHR ''.'' \<notin> set b \<and>
                length b \<le> 3)"
  shows "parse_number (RStr (py_str v)) False = Inr (Some (PFloat v))"
proof -
  have pos: "\<not> float_less v (Fin 0)"
    using assms(1) by (rule parse_number_float)
  have st: "strip (py_str v) = py_str v"
    by (rule strip_id) (simp add: py_str_no_space)
  have ne: "py_str v \<noteq> []" "py_str v \<noteq> ''-''"
    using assms(2) py_float_not_sign by auto
  have dis: "disambiguate (py_str v) = py_str v"
  proof (cases "CHR ''.'' \<in> set (py_str v)")
    case False
    then show ?thesis using py_str_no_comma by (simp add: disambiguate_plain)
  next
    case True
    with assms(3) obtain a b where
      ab: "py_str v = a @ CHR ''.'' # b" "CHR ''.'' \<notin> set a" "CHR ''.'' \<notin> set b" "length b \<le> 3"
      by blast
    have "CHR '','' \<notin> set a" "CHR '','' \<notin> set b"
      using py_str_no_comma [of v] ab(1) by auto
    then show ?thesis
      unfolding ab(1) using ab(2-4) by (simp add: disambiguate_short_fraction)
  qed
  have "parse_number (RStr (py_str v)) False = Inr (to_number (py_str v) False)"
    using ne by (simp add: parse_number_def st dis)
  also have "\<dots> = Inr (Some (PFloat v))"
    using assms(2) pos by (simp add: to_number_def finish_def)
  finally show ?thesis .
qed

theorem reparse_of_rendering_witness:
  "parse_number (RStr ''20,390.00'') False = Inr (Some (PFloat (Fin 20390))) \<and>
   py_str (Fin 20390) = ''20390.0'' \<and>
   py_float (py_str (Fin 20390)) = Some (Fin 20390) \<and>
   parse_number (RStr ''20390.0'') False = Inr (Some (PFloat (Fin 20390)))"
proof -
  have a: "parse_number (RStr ''20,390.00'') False = Inr (Some (PFloat (Fin 20390)))"
    by (simp add: eval_text)
  have s: "py_str (Fin 20390) = ''20390.0''"
    by (simp add: eval_str)
  have b: "py_float (py_str (Fin 20390)) = Some (Fin 20390)"
    unfolding s by (simp add: eval_text)
  have "py_str (Fin 20390) = ''20390'' @ CHR ''.'' # ''0'' \<and> CHR ''.'' \<notin> set ''20390'' \<and>
        CHR ''.'' \<notin> set ''0'' \<and> length ''0'' \<le> 3"
    unfolding s by simp
  then have c: "CHR ''.'' \<notin> set (py_str (Fin 20390)) \<or>
         (\<exists>a b. py_str (Fin 20390) = a @ CHR ''.'' # b \<and> CHR ''.'' \<notin> set a \<and> CHR ''.'' \<notin> set b \<and>
                length b \<le> 3)"
    by blast
  have d: "parse_number (RStr (py_str (Fin 20390))) False = Inr (Some (PFloat (Fin 20390)))"
    using reparse_of_rendering [OF a b c] .
  show ?thesis using a s b d by simp
qed

text \<open>
  The token \<^verbatim>\<open>"1.234,5678"\<close> is read as 1234.5678, whose text \<^verbatim>\<open>"1234.5678"\<close> has four
  digits after the point and is read as 12345678.0.
\<close>

theorem rendering_counterexample:
  "parse_number (RStr ''1.234,5678'') False = Inr (Some (PFloat (Fin (12345678 / 10000)))) \<and>
   py_str (Fin (12345678 / 10000)) = ''1234.5678'' \<and>
   parse_number (RStr ''1234.5678'') False = Inr (Some (PFloat (Fin 12345678)))"
proof -
  have a: "parse_number (RStr ''1.234,5678'') False = Inr (Some (PFloat (Fin (12345678 / 10000))))"
    by (simp add: eval_text)
  have b: "py_str (Fin (12345678 / 10000)) = ''1234.5678''"
    by (simp add: eval_str)
  have c: "parse_number (RStr ''1234.5678'') False = Inr (Some (PFloat (Fin 12345678)))"
    by (simp add: eval_text)
  show ?thesis by (intro conjI a b c)
qed

end
